theory Spec2Isabelle
  imports Main "HOL-Library.Char_ord" "HOL-Library.List_Lexorder"
begin

section \<open>The p4p client coordinator (src/p4p\_client.cpp)\<close>

text \<open>
  The embedding follows the C++ source object by object.  A \<open>shared_ptr\<close> is an
  option of an object identity (\<open>None\<close> is the null pointer); dereferencing a non-null
  \<open>shared_ptr\<close> always reaches a live object, so the three heaps are total functions
  from identities to objects and objects are allocated from counters.  Every call that
  leaves the coordinator (into the transport, or into the host interpreter) is appended
  to a trace, in program order.  Every method is one atomic step: the code runs them
  under the interpreter lock, and the windows in which the lock is released around a
  transport call are not modelled.  The \<open>TRACE\<close> macro (declared in p4p.h) is taken
  to expand to nothing.  Of the transport calls, \<open>createChannel\<close> may return null and
  \<open>createChannelGet\<close> may throw; \<open>destroy()\<close> is taken to return normally.
\<close>

subsection \<open>Data model\<close>

type_synonym ctx_id = nat
type_synonym chan_id = nat
type_synonym op_id = nat
type_synonym provider = string
type_synonym pva_chan = nat
type_synonym pva_get = nat

text \<open>\<open>pvd::PVStructure\<close>: a structure is its list of named fields; the structure
  built from an empty field builder has no field.\<close>

datatype PVStructure = PVStructure "(string \<times> string) list"

text \<open>\<open>pvd::Status\<close> (pvData): a status type and a message; \<open>isSuccess\<close> holds
  for OK and WARNING.\<close>

datatype StatusType = STATUSTYPE_OK | STATUSTYPE_WARNING | STATUSTYPE_ERROR | STATUSTYPE_FATAL

datatype Status = Status (getType: StatusType) (getMessage: string)

fun isSuccess :: "Status \<Rightarrow> bool" where
  "isSuccess (Status t m) = (t = STATUSTYPE_OK \<or> t = STATUSTYPE_WARNING)"

datatype ConnectionState = NEVER_CONNECTED | CONNECTED | DISCONNECTED | DESTROYED

text \<open>Host (Python) objects, as far as the code tells them apart: \<open>None\<close>, strings,
  callables, wrapped values (\<open>P4PValue\<close>), \<open>RuntimeError\<close> instances, and anything
  else.\<close>

datatype pyobj =
    Py_None
  | PyString string
  | PyCallable nat
  | P4PValue PVStructure
  | PyRuntimeError string
  | PyOther nat

fun PyCallable_Check :: "pyobj \<Rightarrow> bool" where
  "PyCallable_Check (PyCallable f) = True"
| "PyCallable_Check x = False"

fun PyString_Check :: "pyobj \<Rightarrow> bool" where
  "PyString_Check (PyString s) = True"
| "PyString_Check x = False"

text \<open>Errors raised to the caller: the Python exceptions set with \<open>PyErr_Format\<close> or
  by the argument parser, and the C++ exceptions that the \<open>CATCH\<close> macro (declared in
  p4p.h) turns into one.  \<open>Aborted\<close> is no exception: the call did not return, the
  process faulted.\<close>

datatype pyerror =
    RuntimeError string
  | ValueError string
  | TypeError string
  | SystemError string
  | Aborted

text \<open>Calls that leave the coordinator.\<close>

datatype action =
    CreateProvider string
  | CreateChannel string chan_id
  | ChannelDestroy pva_chan
  | CreateChannelGet pva_chan op_id "PVStructure option"
  | ChannelGetDestroy pva_get
  | ChannelGetGet pva_get
  | CallCallback op_id pyobj pyobj
  | PyErr_Print
  | PyErr_Clear
  | LogError string Status
  | LogMessage string
  | NullDeref
  | MemoryFault

text \<open>\<open>struct Context\<close>.  The \<open>std::map\<close> is an association list kept in key order,
  which is the order \<open>close\<close> iterates in.\<close>

record Context =
  ctx_provider :: "provider option"
  ctx_channels :: "(string \<times> pva_chan) list"

text \<open>\<open>struct Channel\<close>.  The \<open>std::set\<close> of operations is a list without
  duplicates, kept in the order of the addresses of the operations, which is the
  order the set iterates in.\<close>

record Channel =
  ch_context :: "ctx_id option"
  ch_channel :: "pva_chan option"
  ch_ops :: "op_id list"

text \<open>\<open>struct GetOp : OpBase\<close>, the only operation kind.  \<open>op_addr\<close> is the address
  \<open>new GetOp\<close> placed the object at; the identity of an operation is the number of
  its allocation.\<close>

record GetOp =
  op_addr :: nat
  op_channel :: "chan_id option"
  op_req :: "PVStructure option"
  op_op :: "pva_get option"
  op_cb :: "pyobj option"

record world =
  ctxs :: "ctx_id \<Rightarrow> Context"
  chans :: "chan_id \<Rightarrow> Channel"
  getops :: "op_id \<Rightarrow> GetOp"
  next_ctx :: nat
  next_chan :: nat
  next_op :: nat
  next_get :: nat
  trace :: "action list"

definition emit :: "action \<Rightarrow> world \<Rightarrow> world" where
  "emit a s = s\<lparr>trace := trace s @ [a]\<rparr>"

definition set_ops :: "chan_id \<Rightarrow> op_id list \<Rightarrow> world \<Rightarrow> world" where
  "set_ops c xs s = s\<lparr>chans := (chans s)(c := (chans s c)\<lparr>ch_ops := xs\<rparr>)\<rparr>"

text \<open>\<open>ops.insert(self)\<close>: nothing if the operation is in the set, otherwise it goes
  where its address puts it.\<close>

definition ops_insert :: "chan_id \<Rightarrow> op_id \<Rightarrow> world \<Rightarrow> world" where
  "ops_insert c x s =
     (let xs = ch_ops (chans s c) in
      set_ops c (if x \<in> set xs then xs else insort_key (\<lambda>y. op_addr (getops s y)) x xs) s)"

definition upd_op :: "op_id \<Rightarrow> (GetOp \<Rightarrow> GetOp) \<Rightarrow> world \<Rightarrow> world" where
  "upd_op x f s = s\<lparr>getops := (getops s)(x := f (getops s x))\<rparr>"

subsection \<open>Context\<close>

definition quote :: "string \<Rightarrow> string" where
  "quote n = [CHR 0x27] @ n @ [CHR 0x27]"

text \<open>\<open>Context::py_init\<close>.  \<open>created\<close> is what the provider registry returns for
  the name.  Every call makes a new \<open>Context\<close>.\<close>

definition py_init :: "string \<Rightarrow> provider option \<Rightarrow> world \<Rightarrow> ctx_id \<times> world" where
  "py_init pname created s =
     (let ctxt = next_ctx s;
          s1 = emit (CreateProvider pname) s
      in (ctxt, s1\<lparr>ctxs := (ctxs s1)(ctxt := \<lparr>ctx_provider = created, ctx_channels = []\<rparr>),
                   next_ctx := Suc ctxt\<rparr>))"

text \<open>\<open>Context::py_channel\<close>.  \<open>created\<close> is what the provider's \<open>createChannel\<close>
  returns if it is called (\<open>None\<close>: a null pointer).  The new \<open>Channel\<close> requester
  object \<open>req\<close> is allocated first and handed to the transport; it is kept only when
  the call succeeds.\<close>

definition py_channel :: "ctx_id \<Rightarrow> string \<Rightarrow> pva_chan option \<Rightarrow> world \<Rightarrow> (pyerror + chan_id) \<times> world" where
  "py_channel self cname created s =
     (let C = ctxs s self in
      case ctx_provider C of
        None \<Rightarrow> (Inl (RuntimeError ''Context has been closed''), s)
      | Some p \<Rightarrow>
          (let req = next_chan s;
               (chan, s1) =
                 (case map_of (ctx_channels C) cname of
                    Some c \<Rightarrow> (Some c, s)
                  | None \<Rightarrow>
                      (let s' = emit (CreateChannel cname req) s in
                       case created of
                         None \<Rightarrow> (None, s')
                       | Some c \<Rightarrow>
                           (Some c, s'\<lparr>ctxs := (ctxs s')(self :=
                              C\<lparr>ctx_channels := insort_key fst (cname, c) (ctx_channels C)\<rparr>)\<rparr>)))
           in case chan of
                None \<Rightarrow> (Inl (RuntimeError (''Failed to create channel '' @ quote cname)), s1)
              | Some c \<Rightarrow>
                  (Inr req,
                   s1\<lparr>chans := (chans s1)(req :=
                         \<lparr>ch_context = Some self, ch_channel = Some c, ch_ops = []\<rparr>),
                      next_chan := Suc req\<rparr>)))"

text \<open>\<open>Context::close\<close>.\<close>

definition close :: "ctx_id \<Rightarrow> world \<Rightarrow> world" where
  "close self s =
     (let C = ctxs s self in
      case ctx_provider C of
        None \<Rightarrow> s
      | Some p \<Rightarrow>
          (let chans' = ctx_channels C;
               s1 = s\<lparr>ctxs := (ctxs s)(self := C\<lparr>ctx_provider := None, ctx_channels := []\<rparr>)\<rparr>
           in fold (\<lambda>(n, c). emit (ChannelDestroy c)) chans' s1))"

subsection \<open>Request options\<close>

text \<open>\<open>buildRequest\<close>.  \<open>P4PValue_unwrap\<close> is declared in p4p.h and defined outside
  this file; it is a parameter.\<close>

definition buildRequest :: "(pyobj \<Rightarrow> pyerror + PVStructure option) \<Rightarrow> pyobj \<Rightarrow> pyerror + PVStructure option" where
  "buildRequest P4PValue_unwrap req =
     (if req = Py_None then Inr (Some (PVStructure []))
      else if PyString_Check req then Inl (RuntimeError ''pvRequest parsing not implemented'')
      else P4PValue_unwrap req)"

subsection \<open>Operations\<close>

text \<open>\<open>GetOp::restart\<close>.  \<open>thrown\<close> is what \<open>createChannelGet\<close> does when it is
  called: \<open>None\<close>, it returns a fresh exchange handle (the source assumes it non-null);
  \<open>Some e\<close>, it throws a \<open>std::exception\<close> with the text \<open>e\<close>, which leaves
  \<open>restart\<close> before \<open>op\<close> is assigned and before the operation is inserted in the
  set.  The result says whether \<open>restart\<close> threw.  A \<open>Channel\<close> whose transport
  handle is null cannot be dereferenced: the fault is recorded and the call stops there,
  with \<open>op\<close> already swapped out.\<close>

definition restart :: "op_id \<Rightarrow> string option \<Rightarrow> world \<Rightarrow> string option \<times> world" where
  "restart self thrown s =
     (case op_channel (getops s self) of
        None \<Rightarrow> (None, s)
      | Some c \<Rightarrow>
          (let s1 = (case op_op (getops s self) of
                       None \<Rightarrow> s
                     | Some t \<Rightarrow> emit (ChannelGetDestroy t) (upd_op self (\<lambda>g. g\<lparr>op_op := None\<rparr>) s))
           in case ch_channel (chans s1 c) of
                None \<Rightarrow> (None, emit NullDeref s1)
              | Some pc \<Rightarrow>
                  (let s2 = emit (CreateChannelGet pc self (op_req (getops s1 self))) s1 in
                   case thrown of
                     Some e \<Rightarrow> (Some e, s2)
                   | None \<Rightarrow>
                       (let temp = next_get s2;
                            s3 = upd_op self (\<lambda>g. g\<lparr>op_op := Some temp\<rparr>) (s2\<lparr>next_get := Suc temp\<rparr>)
                        in (None, ops_insert c self s3)))))"

text \<open>\<open>GetOp::lostConn\<close>.\<close>

definition lostConn :: "op_id \<Rightarrow> world \<Rightarrow> world" where
  "lostConn self s =
     (case op_channel (getops s self) of
        None \<Rightarrow> s
      | Some c \<Rightarrow>
          (let s1 = ops_insert c self s in
           case op_op (getops s1 self) of
             None \<Rightarrow> s1
           | Some t \<Rightarrow> emit (ChannelGetDestroy t) (upd_op self (\<lambda>g. g\<lparr>op_op := None\<rparr>) s1)))"

text \<open>\<open>OpBase::cancel\<close>: erase this operation from the set of its channel.\<close>

definition OpBase_cancel :: "op_id \<Rightarrow> world \<Rightarrow> bool \<times> world" where
  "OpBase_cancel self s =
     (case op_channel (getops s self) of
        None \<Rightarrow> (False, s)
      | Some c \<Rightarrow>
          (self \<in> set (ch_ops (chans s c)),
           set_ops c (remove1 self (ch_ops (chans s c))) s))"

text \<open>\<open>GetOp::cancel\<close>.\<close>

definition cancel :: "op_id \<Rightarrow> world \<Rightarrow> bool \<times> world" where
  "cancel self s =
     (let s1 = snd (OpBase_cancel self s);
          canceled = (op_cb (getops s1 self) \<noteq> None);
          s2 = upd_op self (\<lambda>g. g\<lparr>op_channel := None, op_cb := None\<rparr>) s1;
          s3 = (case op_op (getops s2 self) of
                  None \<Rightarrow> s2
                | Some t \<Rightarrow> emit (ChannelGetDestroy t) (upd_op self (\<lambda>g. g\<lparr>op_op := None\<rparr>) s2))
      in (canceled, s3))"

text \<open>\<open>OpBase::py_cancel\<close>: \<open>SELF->channel.get() && SELF->cancel()\<close>.\<close>

definition py_cancel :: "op_id \<Rightarrow> world \<Rightarrow> bool \<times> world" where
  "py_cancel self s =
     (if op_channel (getops s self) \<noteq> None then cancel self s else (False, s))"

text \<open>\<open>GetOp::clear\<close> (the collector's \<open>tp_clear\<close>) and \<open>OpBase::destroy\<close> (run by
  \<open>TheDestroyer\<close> when the host object is reclaimed).\<close>

definition clear :: "op_id \<Rightarrow> world \<Rightarrow> world" where
  "clear self s = upd_op self (\<lambda>g. g\<lparr>op_cb := None\<rparr>) s"

definition destroy :: "op_id \<Rightarrow> world \<Rightarrow> world" where
  "destroy self s = snd (cancel self s)"

text \<open>\<open>GetOp::channelGetConnect\<close>.\<close>

definition channelGetConnect :: "op_id \<Rightarrow> Status \<Rightarrow> pva_get \<Rightarrow> world \<Rightarrow> world" where
  "channelGetConnect self status channelGet s =
     (if \<not> isSuccess status
      then emit (LogError ''channelGetConnect oops'' status) s
      else emit (ChannelGetGet channelGet) s)"

text \<open>Modelled from the spec: \<open>P4PValue_wrap\<close> is declared in p4p.h and defined outside
  this file.  It "wraps a transport result value into the host-visible value
  representation"; as the caller tests its result, it returns null when the host cannot
  build the object (\<open>built\<close> is false).\<close>

definition P4PValue_wrap :: "bool \<Rightarrow> PVStructure \<Rightarrow> pyobj option" where
  "P4PValue_wrap built pvStructure = (if built then Some (P4PValue pvStructure) else None)"

text \<open>\<open>std::string::c_str()\<close> read as a C string: the characters before the first NUL.\<close>

definition c_str :: "string \<Rightarrow> string" where
  "c_str m = takeWhile (\<lambda>ch. ch \<noteq> CHR 0x00) m"

text \<open>\<open>PyObject_CallFunction(PyExc_RuntimeError, "s", msg)\<close> of the host's C interface,
  on a C string: a new \<open>RuntimeError\<close> with that message, or null on failure.\<close>

definition PyObject_CallFunction :: "bool \<Rightarrow> string \<Rightarrow> pyobj option" where
  "PyObject_CallFunction built msg = (if built then Some (PyRuntimeError msg) else None)"

text \<open>\<open>GetOp::getDone\<close>.  The body reads neither \<open>channelGet\<close> nor \<open>bitSet\<close>;
  the latter is left out.  \<open>built\<close> tells whether the host manages to build the
  object for the callback; \<open>ret\<close> is what the callback returns (\<open>None\<close>: it
  raised).  The callback is an action of the trace; what it does in turn to the
  coordinator are further steps of a run.\<close>

definition getDone :: "op_id \<Rightarrow> Status \<Rightarrow> pva_get \<Rightarrow> PVStructure \<Rightarrow> bool \<Rightarrow> pyobj option \<Rightarrow> world \<Rightarrow> world" where
  "getDone self status channelGet pvStructure built ret s =
     (case op_cb (getops s self) of
        None \<Rightarrow> s
      | Some f \<Rightarrow>
          (let V = (if isSuccess status
                    then P4PValue_wrap built pvStructure
                    else PyObject_CallFunction built (c_str (getMessage status)));
               (V', s1) = (case V of
                             None \<Rightarrow> (None, s)
                           | Some v \<Rightarrow> (ret, emit (CallCallback self f v) s))
           in if V' = None then emit PyErr_Clear (emit PyErr_Print s1) else s1))"

subsection \<open>Channel\<close>

text \<open>What the environment answers during one call of \<open>Channel::py_get\<close>.  The
  keyword list \<open>names\<close> of \<open>py_get\<close> has no terminating null entry (that of
  \<open>py_channel\<close> has one), so \<open>PyArg_ParseTupleAndKeywords\<close> reads past the array:
  whether it then delivers the arguments, raises, or faults is not decided by the code.
  The other answers: the name of the type of \<open>cb\<close> (\<open>Py_TYPE(cb)->tp_name\<close>), the
  address of the new operation, \<open>isConnected()\<close> of the transport, and what
  \<open>createChannelGet\<close> does if \<open>restart\<close> calls it.\<close>

datatype parse_result = Parsed | ParseError pyerror | ParseFault

record get_env =
  env_parse :: parse_result
  env_tp_name :: string
  env_addr :: nat
  env_connected :: bool
  env_thrown :: "string option"

text \<open>\<open>Channel::py_get\<close>.  When \<open>buildRequest\<close> throws, the new operation is in no
  set yet and is deleted again (\<open>OpBase::cancel\<close> in its destructor finds nothing).
  When \<open>restart\<close> throws, the operation is in the set already and stays there, and the
  call fails: \<open>CATCH\<close> (declared in p4p.h) is taken to turn the exception into a
  \<open>RuntimeError\<close> with its text.  The allocation of the host object for the result
  (\<open>tp_new\<close>) is taken to succeed.\<close>

definition py_get :: "(pyobj \<Rightarrow> pyerror + PVStructure option) \<Rightarrow> chan_id \<Rightarrow> pyobj \<Rightarrow> pyobj \<Rightarrow> get_env \<Rightarrow> world \<Rightarrow> (pyerror + op_id) \<times> world" where
  "py_get P4PValue_unwrap self cb req env s =
     (case env_parse env of
        ParseFault \<Rightarrow> (Inl Aborted, emit MemoryFault s)
      | ParseError e \<Rightarrow> (Inl e, s)
      | Parsed \<Rightarrow>
          (if \<not> PyCallable_Check cb
           then (Inl (ValueError (''callable required, not '' @ env_tp_name env)), s)
           else case ch_channel (chans s self) of
             None \<Rightarrow> (Inl (RuntimeError ''Channel closed''), s)
           | Some pc \<Rightarrow>
               (let reqop = next_op s in
                case buildRequest P4PValue_unwrap req of
                  Inl e \<Rightarrow> (Inl e, s)
                | Inr opts \<Rightarrow>
                    (let s1 = s\<lparr>getops := (getops s)(reqop :=
                                  \<lparr>op_addr = env_addr env, op_channel = Some self, op_req = opts,
                                   op_op = None, op_cb = Some cb\<rparr>),
                                next_op := Suc reqop\<rparr>;
                         s2 = ops_insert self reqop s1
                     in if env_connected env
                        then (case restart reqop (env_thrown env) s2 of
                                (None, s3) \<Rightarrow> (Inr reqop, s3)
                              | (Some e, s3) \<Rightarrow> (Inl (RuntimeError e), s3))
                        else (Inr reqop, s2)))))"

text \<open>The body of the loop of the Connected transition: \<open>restart\<close> under
  \<open>try\<close>, the exception printed to \<open>std::cout\<close>.  \<open>thrown\<close> tells, for each
  operation, what \<open>createChannelGet\<close> does when its \<open>restart\<close> calls it.\<close>

definition restart_caught :: "(op_id \<Rightarrow> string option) \<Rightarrow> op_id \<Rightarrow> world \<Rightarrow> world" where
  "restart_caught thrown it s =
     (case restart it (thrown it) s of
        (None, s') \<Rightarrow> s'
      | (Some e, s') \<Rightarrow> emit (LogMessage (''Error in restart() '' @ e)) s')"

text \<open>\<open>Channel::channelStateChange\<close>: the set is swapped out for an empty one and the
  snapshot is iterated.  \<open>lostConn\<close> and \<open>cancel\<close> throw only if \<open>destroy()\<close>
  does, so the \<open>catch\<close> around them is never entered.\<close>

definition channelStateChange :: "chan_id \<Rightarrow> ConnectionState \<Rightarrow> (op_id \<Rightarrow> string option) \<Rightarrow> world \<Rightarrow> world" where
  "channelStateChange self connectionState thrown s =
     (let temp = ch_ops (chans s self) in
      case connectionState of
        NEVER_CONNECTED \<Rightarrow> s
      | CONNECTED \<Rightarrow> fold (restart_caught thrown) temp (set_ops self [] s)
      | DISCONNECTED \<Rightarrow> fold lostConn temp (set_ops self [] s)
      | DESTROYED \<Rightarrow> fold (\<lambda>it. snd \<circ> cancel it) temp (set_ops self [] s))"

subsection \<open>Runs\<close>

text \<open>Everything that can happen to the coordinator: the calls of the host program
  (\<open>channel\<close>, \<open>close\<close>, \<open>get\<close>, \<open>cancel\<close>, the collector's \<open>tp_clear\<close>, the
  destructor of an operation handle) and the notifications of the transport, each with
  what the environment answers during the call.  A connection-state notification comes
  with what \<open>createChannelGet\<close> does for each operation that is restarted.\<close>

datatype event =
    EvInit string "provider option"
  | EvChannel ctx_id string "pva_chan option"
  | EvClose ctx_id
  | EvGet chan_id pyobj pyobj get_env
  | EvCancel op_id
  | EvClear op_id
  | EvDestroy op_id
  | EvStateChange chan_id ConnectionState "op_id \<Rightarrow> string option"
  | EvGetConnect op_id Status pva_get
  | EvGetDone op_id Status pva_get PVStructure bool "pyobj option"

fun step :: "(pyobj \<Rightarrow> pyerror + PVStructure option) \<Rightarrow> event \<Rightarrow> world \<Rightarrow> world" where
  "step U (EvInit n r) s = snd (py_init n r s)"
| "step U (EvChannel c n r) s = snd (py_channel c n r s)"
| "step U (EvClose c) s = close c s"
| "step U (EvGet c cb req env) s = snd (py_get U c cb req env s)"
| "step U (EvCancel x) s = snd (py_cancel x s)"
| "step U (EvClear x) s = clear x s"
| "step U (EvDestroy x) s = destroy x s"
| "step U (EvStateChange c st thrown) s = channelStateChange c st thrown s"
| "step U (EvGetConnect x st g) s = channelGetConnect x st g s"
| "step U (EvGetDone x st g v b r) s = getDone x st g v b r s"

definition run :: "(pyobj \<Rightarrow> pyerror + PVStructure option) \<Rightarrow> event list \<Rightarrow> world \<Rightarrow> world" where
  "run U es s = fold (step U) es s"

text \<open>Reading a trace: the callback invocations of an operation, and the calls of
  \<open>createChannelGet\<close> for it (one per \<open>restart\<close> that reaches the transport,
  whether the call returns or throws).\<close>

fun is_callback :: "op_id \<Rightarrow> action \<Rightarrow> bool" where
  "is_callback x (CallCallback y f v) = (x = y)"
| "is_callback x a = False"

fun is_restart :: "op_id \<Rightarrow> action \<Rightarrow> bool" where
  "is_restart x (CreateChannelGet pc y r) = (x = y)"
| "is_restart x a = False"

fun any_callback :: "action \<Rightarrow> bool" where
  "any_callback (CallCallback y f v) = True"
| "any_callback a = False"

definition callbacks :: "op_id \<Rightarrow> world \<Rightarrow> action list" where
  "callbacks x s = filter (is_callback x) (trace s)"

definition restarts :: "op_id \<Rightarrow> world \<Rightarrow> action list" where
  "restarts x s = filter (is_restart x) (trace s)"

fun is_done :: "op_id \<Rightarrow> event \<Rightarrow> bool" where
  "is_done x (EvGetDone y st g v b r) = (x = y)"
| "is_done x e = False"

text \<open>The actions a step added to the trace.\<close>

definition added :: "world \<Rightarrow> world \<Rightarrow> action list" where
  "added s s' = drop (length (trace s)) (trace s')"

text \<open>An operation that exists and has no channel reference, respectively no callback.\<close>

definition unbound :: "op_id \<Rightarrow> world \<Rightarrow> bool" where
  "unbound x s = (x < next_op s \<and> op_channel (getops s x) = None)"

definition uncalled :: "op_id \<Rightarrow> world \<Rightarrow> bool" where
  "uncalled x s = (x < next_op s \<and> op_cb (getops s x) = None)"

text \<open>An operation after \<open>GetOp::cancel\<close>: no channel, no callback, no exchange.\<close>

definition cancelled :: "op_id \<Rightarrow> world \<Rightarrow> bool" where
  "cancelled x s =
     (op_channel (getops s x) = None \<and> op_cb (getops s x) = None \<and> op_op (getops s x) = None)"

text \<open>The operations registered on a channel are well formed: the set has no duplicate,
  every member refers back to this channel, and the channel has its transport handle.\<close>

definition registered :: "chan_id \<Rightarrow> world \<Rightarrow> bool" where
  "registered c s =
     (distinct (ch_ops (chans s c)) \<and>
      (\<forall>x\<in>set (ch_ops (chans s c)). op_channel (getops s x) = Some c) \<and>
      ch_channel (chans s c) \<noteq> None)"

text \<open>All channels at once, with every registered operation allocated.\<close>

definition wf_world :: "world \<Rightarrow> bool" where
  "wf_world s =
     (\<forall>c. distinct (ch_ops (chans s c)) \<and>
          (\<forall>x\<in>set (ch_ops (chans s c)).
              x < next_op s \<and> op_channel (getops s x) = Some c \<and> ch_channel (chans s c) \<noteq> None))"


text \<open>A context that exists and has no provider.\<close>

definition closed :: "ctx_id \<Rightarrow> world \<Rightarrow> bool" where
  "closed c s = (c < next_ctx s \<and> ctx_provider (ctxs s c) = None)"


text \<open>The world before anything is created, and a \<open>P4PValue_unwrap\<close> for the
  examples: a wrapped value unwraps to its structure, anything else is a type error.\<close>

definition init_world :: world where
  "init_world =
     \<lparr>ctxs = (\<lambda>c. \<lparr>ctx_provider = None, ctx_channels = []\<rparr>),
      chans = (\<lambda>c. \<lparr>ch_context = None, ch_channel = None, ch_ops = []\<rparr>),
      getops = (\<lambda>x. \<lparr>op_addr = 0, op_channel = None, op_req = None, op_op = None, op_cb = None\<rparr>),
      next_ctx = 0, next_chan = 0, next_op = 0, next_get = 0, trace = []\<rparr>"

fun unwrap_example :: "pyobj \<Rightarrow> pyerror + PVStructure option" where
  "unwrap_example (P4PValue v) = Inr (Some v)"
| "unwrap_example x = Inl (TypeError ''Value required'')"

text \<open>Answers of the environment for the examples: the arguments are parsed, the
  operation is placed at the given address, the channel is not connected
  (\<open>env_idle\<close>) or connected (\<open>env_live\<close>), and \<open>createChannelGet\<close> returns.\<close>

definition env_idle :: "nat \<Rightarrow> get_env" where
  "env_idle a =
     \<lparr>env_parse = Parsed, env_tp_name = ''function'', env_addr = a, env_connected = False,
      env_thrown = None\<rparr>"

definition env_live :: "nat \<Rightarrow> get_env" where
  "env_live a = (env_idle a)\<lparr>env_connected := True\<rparr>"

definition returns :: "op_id \<Rightarrow> string option" where
  "returns x = None"

text \<open>A world to try things on: one context, the channel R1 (never connected), one
  pending get with the callback \<open>PyCallable 1\<close>.\<close>

definition world_get :: world where
  "world_get = run unwrap_example
     [EvInit ''pva'' (Some ''pva''), EvChannel 0 ''R1'' (Some 7),
      EvGet 0 (PyCallable 1) Py_None (env_idle 4096)]
     init_world"

text \<open>The data requests issued on an exchange, and the notification that makes the
  coordinator issue one.\<close>

fun is_get :: "pva_get \<Rightarrow> action \<Rightarrow> bool" where
  "is_get g (ChannelGetGet h) = (g = h)"
| "is_get g a = False"

definition requests :: "pva_get \<Rightarrow> world \<Rightarrow> action list" where
  "requests g s = filter (is_get g) (trace s)"

fun is_connect_ok :: "pva_get \<Rightarrow> event \<Rightarrow> bool" where
  "is_connect_ok g (EvGetConnect x st h) = (g = h \<and> isSuccess st)"
| "is_connect_ok g e = False"

text \<open>A step that invokes no callback and issues no data request: the trace grows by
  actions that are neither.\<close>

fun plain :: "action \<Rightarrow> bool" where
  "plain (CallCallback x f v) = False"
| "plain (ChannelGetGet g) = False"
| "plain a = True"

definition quiet :: "world \<Rightarrow> world \<Rightarrow> bool" where
  "quiet s s' = (\<exists>tr. trace s' = trace s @ tr \<and> list_all plain tr)"

text \<open>The registry of a context without provider is empty, in every world that a run
  reaches from the initial one.\<close>

definition registries_ok :: "world \<Rightarrow> bool" where
  "registries_ok s = (\<forall>c. ctx_provider (ctxs s c) = None \<longrightarrow> ctx_channels (ctxs s c) = [])"


definition world_two :: world where
  "world_two = run unwrap_example
     [EvInit ''pva'' (Some ''pva''), EvChannel 0 ''R2'' (Some 8), EvChannel 0 ''R1'' (Some 7)]
     init_world"

definition world_conn :: world where
  "world_conn = run unwrap_example
     [EvInit ''pva'' (Some ''pva''), EvChannel 0 ''R1'' (Some 7),
      EvGet 0 (PyCallable 1) Py_None (env_live 4096)]
     init_world"





text \<open>A failed connect-phase notification for the exchange in flight, then the connection
  is lost and comes back, and the new exchange connects and completes.\<close>

definition events_reconnect :: "event list" where
  "events_reconnect =
     [EvGetConnect 0 (Status STATUSTYPE_ERROR ''timeout'') 0,
      EvStateChange 0 DISCONNECTED returns, EvStateChange 0 CONNECTED returns,
      EvGetConnect 0 (Status STATUSTYPE_OK []) 1,
      EvGetDone 0 (Status STATUSTYPE_OK []) 1 (PVStructure []) True (Some Py_None)]"


section \<open>Basic facts\<close>

declare P4PValue_wrap_def [simp] PyObject_CallFunction_def [simp]

lemmas eval_defs = run_def py_init_def py_channel_def py_get_def py_cancel_def cancel_def OpBase_cancel_def
  restart_def restart_caught_def lostConn_def getDone_def channelGetConnect_def channelStateChange_def
  close_def clear_def destroy_def buildRequest_def init_world_def Let_def callbacks_def restarts_def
  added_def requests_def quote_def ops_insert_def env_idle_def env_live_def returns_def c_str_def

lemma emit_simps [simp]:
  "trace (emit a s) = trace s @ [a]"
  "getops (emit a s) = getops s"
  "chans (emit a s) = chans s"
  "ctxs (emit a s) = ctxs s"
  "next_op (emit a s) = next_op s"
  "next_chan (emit a s) = next_chan s"
  "next_ctx (emit a s) = next_ctx s"
  "next_get (emit a s) = next_get s"
  by (simp_all add: emit_def)

lemma set_ops_simps [simp]:
  "trace (set_ops c xs s) = trace s"
  "getops (set_ops c xs s) = getops s"
  "chans (set_ops c xs s) = (chans s)(c := (chans s c)\<lparr>ch_ops := xs\<rparr>)"
  "ctxs (set_ops c xs s) = ctxs s"
  "next_op (set_ops c xs s) = next_op s"
  "next_chan (set_ops c xs s) = next_chan s"
  "next_ctx (set_ops c xs s) = next_ctx s"
  "next_get (set_ops c xs s) = next_get s"
  by (simp_all add: set_ops_def)

lemma ops_insert_simps [simp]:
  "trace (ops_insert c x s) = trace s"
  "getops (ops_insert c x s) = getops s"
  "ctxs (ops_insert c x s) = ctxs s"
  "next_op (ops_insert c x s) = next_op s"
  "next_chan (ops_insert c x s) = next_chan s"
  "next_ctx (ops_insert c x s) = next_ctx s"
  "next_get (ops_insert c x s) = next_get s"
  "ch_channel (chans (ops_insert c x s) c') = ch_channel (chans s c')"
  "ch_context (chans (ops_insert c x s) c') = ch_context (chans s c')"
  by (simp_all add: ops_insert_def Let_def)

lemma ops_insert_set [simp]:
  "set (ch_ops (chans (ops_insert c x s) c')) =
     (if c' = c then insert x (set (ch_ops (chans s c))) else set (ch_ops (chans s c')))"
  by (auto simp: ops_insert_def Let_def set_insort_key)

lemma ops_insert_distinct [simp]:
  "distinct (ch_ops (chans (ops_insert c x s) c')) = distinct (ch_ops (chans s c'))"
  by (auto simp: ops_insert_def Let_def distinct_insort)

lemma upd_op_simps [simp]:
  "trace (upd_op x f s) = trace s"
  "getops (upd_op x f s) = (getops s)(x := f (getops s x))"
  "chans (upd_op x f s) = chans s"
  "ctxs (upd_op x f s) = ctxs s"
  "next_op (upd_op x f s) = next_op s"
  "next_chan (upd_op x f s) = next_chan s"
  "next_ctx (upd_op x f s) = next_ctx s"
  "next_get (upd_op x f s) = next_get s"
  by (simp_all add: upd_op_def)

text \<open>The loop body of the Connected transition, in terms of \<open>restart\<close>.\<close>

lemma restart_caught_fields:
  "getops (restart_caught f y s) = getops (snd (restart y (f y) s))"
  "chans (restart_caught f y s) = chans (snd (restart y (f y) s))"
  "ctxs (restart_caught f y s) = ctxs (snd (restart y (f y) s))"
  "next_op (restart_caught f y s) = next_op (snd (restart y (f y) s))"
  "next_chan (restart_caught f y s) = next_chan (snd (restart y (f y) s))"
  "next_ctx (restart_caught f y s) = next_ctx (snd (restart y (f y) s))"
  "next_get (restart_caught f y s) = next_get (snd (restart y (f y) s))"
  by (simp_all add: restart_caught_def split: prod.splits option.splits)

lemma restart_caught_trace:
  "trace (restart_caught f y s) =
     trace (snd (restart y (f y) s)) @
       (case fst (restart y (f y) s) of None \<Rightarrow> [] | Some e \<Rightarrow> [LogMessage (''Error in restart() '' @ e)])"
  by (simp add: restart_caught_def split: prod.splits option.splits)

section \<open>Operations without a channel reference or without a callback\<close>

text \<open>Once an operation has lost its channel reference, no step gives it one back, and
  no exchange is created for it any more; once it has lost its callback, no step installs
  one, and no callback of it is invoked any more.\<close>

lemma restart_unbound:
  "unbound x s \<Longrightarrow> unbound x (snd (restart y r s)) \<and> restarts x (snd (restart y r s)) = restarts x s"
  by (auto simp: unbound_def restart_def restarts_def Let_def split: option.splits)

lemma restart_uncalled:
  "uncalled x s \<Longrightarrow> uncalled x (snd (restart y r s)) \<and> callbacks x (snd (restart y r s)) = callbacks x s"
  by (auto simp: uncalled_def restart_def callbacks_def Let_def split: option.splits)

lemma restart_caught_unbound:
  "unbound x s \<Longrightarrow> unbound x (restart_caught f y s) \<and> restarts x (restart_caught f y s) = restarts x s"
  using restart_unbound [of x s y "f y"]
  by (auto simp: unbound_def restarts_def restart_caught_fields restart_caught_trace split: option.splits)

lemma restart_caught_uncalled:
  "uncalled x s \<Longrightarrow> uncalled x (restart_caught f y s) \<and> callbacks x (restart_caught f y s) = callbacks x s"
  using restart_uncalled [of x s y "f y"]
  by (auto simp: uncalled_def callbacks_def restart_caught_fields restart_caught_trace split: option.splits)

lemma lostConn_unbound: "unbound x s \<Longrightarrow> unbound x (lostConn y s) \<and> restarts x (lostConn y s) = restarts x s"
  by (auto simp: unbound_def lostConn_def restarts_def Let_def split: option.splits)

lemma lostConn_uncalled: "uncalled x s \<Longrightarrow> uncalled x (lostConn y s) \<and> callbacks x (lostConn y s) = callbacks x s"
  by (auto simp: uncalled_def lostConn_def callbacks_def Let_def split: option.splits)

lemma cancel_unbound: "unbound x s \<Longrightarrow> unbound x (snd (cancel y s)) \<and> restarts x (snd (cancel y s)) = restarts x s"
  by (auto simp: unbound_def cancel_def OpBase_cancel_def restarts_def Let_def split: option.splits)

lemma cancel_uncalled: "uncalled x s \<Longrightarrow> uncalled x (snd (cancel y s)) \<and> callbacks x (snd (cancel y s)) = callbacks x s"
  by (auto simp: uncalled_def cancel_def OpBase_cancel_def callbacks_def Let_def split: option.splits)

lemma fold_unbound:
  assumes "\<And>y s. unbound x s \<Longrightarrow> unbound x (f y s) \<and> restarts x (f y s) = restarts x s"
  shows "unbound x s \<Longrightarrow> unbound x (fold f ys s) \<and> restarts x (fold f ys s) = restarts x s"
  by (induction ys arbitrary: s) (auto simp: assms)

lemma fold_uncalled:
  assumes "\<And>y s. uncalled x s \<Longrightarrow> uncalled x (f y s) \<and> callbacks x (f y s) = callbacks x s"
  shows "uncalled x s \<Longrightarrow> uncalled x (fold f ys s) \<and> callbacks x (fold f ys s) = callbacks x s"
  by (induction ys arbitrary: s) (auto simp: assms)

lemma set_ops_unbound: "unbound x s \<Longrightarrow> unbound x (set_ops c xs s) \<and> restarts x (set_ops c xs s) = restarts x s"
  by (simp add: unbound_def restarts_def)

lemma set_ops_uncalled: "uncalled x s \<Longrightarrow> uncalled x (set_ops c xs s) \<and> callbacks x (set_ops c xs s) = callbacks x s"
  by (simp add: uncalled_def callbacks_def)

lemma channelStateChange_unbound:
  assumes "unbound x s"
  shows "unbound x (channelStateChange c st f s) \<and> restarts x (channelStateChange c st f s) = restarts x s"
proof (cases st)
  case NEVER_CONNECTED
  with assms show ?thesis by (simp add: channelStateChange_def)
next
  case CONNECTED
  from fold_unbound [of x "restart_caught f", OF restart_caught_unbound] set_ops_unbound [OF assms, of c "[]"]
  show ?thesis unfolding channelStateChange_def CONNECTED by simp
next
  case DISCONNECTED
  from fold_unbound [of x lostConn, OF lostConn_unbound] set_ops_unbound [OF assms, of c "[]"]
  show ?thesis unfolding channelStateChange_def DISCONNECTED by simp
next
  case DESTROYED
  have "\<And>y s. unbound x s \<Longrightarrow> unbound x ((snd \<circ> cancel y) s) \<and> restarts x ((snd \<circ> cancel y) s) = restarts x s"
    using cancel_unbound by simp
  from fold_unbound [of x "\<lambda>it. snd \<circ> cancel it", OF this] set_ops_unbound [OF assms, of c "[]"]
  show ?thesis unfolding channelStateChange_def DESTROYED by simp
qed

lemma channelStateChange_uncalled:
  assumes "uncalled x s"
  shows "uncalled x (channelStateChange c st f s) \<and> callbacks x (channelStateChange c st f s) = callbacks x s"
proof (cases st)
  case NEVER_CONNECTED
  with assms show ?thesis by (simp add: channelStateChange_def)
next
  case CONNECTED
  from fold_uncalled [of x "restart_caught f", OF restart_caught_uncalled] set_ops_uncalled [OF assms, of c "[]"]
  show ?thesis unfolding channelStateChange_def CONNECTED by simp
next
  case DISCONNECTED
  from fold_uncalled [of x lostConn, OF lostConn_uncalled] set_ops_uncalled [OF assms, of c "[]"]
  show ?thesis unfolding channelStateChange_def DISCONNECTED by simp
next
  case DESTROYED
  have "\<And>y s. uncalled x s \<Longrightarrow> uncalled x ((snd \<circ> cancel y) s) \<and> callbacks x ((snd \<circ> cancel y) s) = callbacks x s"
    using cancel_uncalled by simp
  from fold_uncalled [of x "\<lambda>it. snd \<circ> cancel it", OF this] set_ops_uncalled [OF assms, of c "[]"]
  show ?thesis unfolding channelStateChange_def DESTROYED by simp
qed

lemma py_cancel_unbound: "unbound x s \<Longrightarrow> unbound x (snd (py_cancel y s)) \<and> restarts x (snd (py_cancel y s)) = restarts x s"
  using cancel_unbound [of x s y] by (simp add: py_cancel_def)

lemma py_cancel_uncalled: "uncalled x s \<Longrightarrow> uncalled x (snd (py_cancel y s)) \<and> callbacks x (snd (py_cancel y s)) = callbacks x s"
  using cancel_uncalled [of x s y] by (simp add: py_cancel_def)

lemma clear_unbound: "unbound x s \<Longrightarrow> unbound x (clear y s) \<and> restarts x (clear y s) = restarts x s"
  by (auto simp: unbound_def restarts_def clear_def)

lemma clear_uncalled: "uncalled x s \<Longrightarrow> uncalled x (clear y s) \<and> callbacks x (clear y s) = callbacks x s"
  by (auto simp: uncalled_def callbacks_def clear_def)

lemma channelGetConnect_unbound: "unbound x s \<Longrightarrow> unbound x (channelGetConnect y st g s) \<and> restarts x (channelGetConnect y st g s) = restarts x s"
  by (simp add: unbound_def restarts_def channelGetConnect_def)

lemma channelGetConnect_uncalled: "uncalled x s \<Longrightarrow> uncalled x (channelGetConnect y st g s) \<and> callbacks x (channelGetConnect y st g s) = callbacks x s"
  by (simp add: uncalled_def callbacks_def channelGetConnect_def)

lemma getDone_unbound: "unbound x s \<Longrightarrow> unbound x (getDone y st g v b r s) \<and> restarts x (getDone y st g v b r s) = restarts x s"
  by (auto simp: unbound_def restarts_def getDone_def Let_def split: option.splits)

lemma getDone_uncalled: "uncalled x s \<Longrightarrow> uncalled x (getDone y st g v b r s) \<and> callbacks x (getDone y st g v b r s) = callbacks x s"
  by (auto simp: uncalled_def callbacks_def getDone_def Let_def split: option.splits)

lemma trace_fold_emit: "trace (fold (\<lambda>(n, c). emit (f c)) xs s) = trace s @ map (\<lambda>(n, c). f c) xs"
  by (induction xs arbitrary: s) (auto)

lemma getops_fold_emit: "getops (fold (\<lambda>(n, c). emit (f c)) xs s) = getops s"
  by (induction xs arbitrary: s) (auto)

lemma next_op_fold_emit: "next_op (fold (\<lambda>(n, c). emit (f c)) xs s) = next_op s"
  by (induction xs arbitrary: s) (auto)

lemma close_unbound: "unbound x s \<Longrightarrow> unbound x (close y s) \<and> restarts x (close y s) = restarts x s"
  by (auto simp: unbound_def restarts_def close_def Let_def trace_fold_emit getops_fold_emit next_op_fold_emit
      filter_empty_conv split: option.splits)

lemma close_uncalled: "uncalled x s \<Longrightarrow> uncalled x (close y s) \<and> callbacks x (close y s) = callbacks x s"
  by (auto simp: uncalled_def callbacks_def close_def Let_def trace_fold_emit getops_fold_emit next_op_fold_emit
      filter_empty_conv split: option.splits)

lemma py_init_unbound: "unbound x s \<Longrightarrow> unbound x (snd (py_init n r s)) \<and> restarts x (snd (py_init n r s)) = restarts x s"
  by (auto simp: unbound_def restarts_def py_init_def Let_def)

lemma py_init_uncalled: "uncalled x s \<Longrightarrow> uncalled x (snd (py_init n r s)) \<and> callbacks x (snd (py_init n r s)) = callbacks x s"
  by (auto simp: uncalled_def callbacks_def py_init_def Let_def)

lemma py_channel_unbound: "unbound x s \<Longrightarrow> unbound x (snd (py_channel y n r s)) \<and> restarts x (snd (py_channel y n r s)) = restarts x s"
  by (auto simp: unbound_def restarts_def py_channel_def Let_def split: option.splits)

lemma py_channel_uncalled: "uncalled x s \<Longrightarrow> uncalled x (snd (py_channel y n r s)) \<and> callbacks x (snd (py_channel y n r s)) = callbacks x s"
  by (auto simp: uncalled_def callbacks_def py_channel_def Let_def split: option.splits)

text \<open>The worlds \<open>py_get\<close> may end in: the one it started from, that world with the
  fault recorded, the world with the new operation made and inserted, or the latter
  after \<open>restart\<close>.\<close>

lemma py_get_cases:
  obtains (same) "snd (py_get U c cb req env s) = s"
  | (fault) "snd (py_get U c cb req env s) = emit MemoryFault s"
  | (idle) g where "op_channel g = Some c" and "op_cb g = Some cb" and "ch_channel (chans s c) \<noteq> None"
      and "snd (py_get U c cb req env s) =
        ops_insert c (next_op s) (s\<lparr>getops := (getops s)(next_op s := g), next_op := Suc (next_op s)\<rparr>)"
  | (live) g where "op_channel g = Some c" and "op_cb g = Some cb" and "ch_channel (chans s c) \<noteq> None"
      and "snd (py_get U c cb req env s) =
        snd (restart (next_op s) (env_thrown env)
          (ops_insert c (next_op s) (s\<lparr>getops := (getops s)(next_op s := g), next_op := Suc (next_op s)\<rparr>)))"
proof (cases "env_parse env")
  case ParseFault
  then show ?thesis using fault by (simp add: py_get_def)
next
  case (ParseError e)
  then show ?thesis using same by (simp add: py_get_def)
next
  case Parsed
  show ?thesis
  proof (cases "PyCallable_Check cb")
    case False
    with Parsed show ?thesis using same by (simp add: py_get_def)
  next
    case True
    show ?thesis
    proof (cases "ch_channel (chans s c)")
      case None
      with Parsed True show ?thesis using same by (simp add: py_get_def)
    next
      case (Some pc)
      show ?thesis
      proof (cases "buildRequest U req")
        case (Inl e)
        with Parsed True Some show ?thesis using same by (simp add: py_get_def)
      next
        case (Inr opts)
        let ?g = "\<lparr>op_addr = env_addr env, op_channel = Some c, op_req = opts, op_op = None,
          op_cb = Some cb\<rparr>"
        show ?thesis
        proof (cases "env_connected env")
          case False
          with Parsed True Some Inr show ?thesis
            using idle [of ?g] by (simp add: py_get_def Let_def)
        next
          case connected: True
          with Parsed True Some Inr show ?thesis
            using live [of ?g] by (simp add: py_get_def Let_def split: prod.splits option.splits)
        qed
      qed
    qed
  qed
qed

lemma py_get_unbound:
  assumes "unbound x s"
  shows "unbound x (snd (py_get U c cb req env s)) \<and> restarts x (snd (py_get U c cb req env s)) = restarts x s"
proof -
  have *: "unbound x (ops_insert c (next_op s) (s\<lparr>getops := (getops s)(next_op s := g), next_op := Suc (next_op s)\<rparr>))
      \<and> restarts x (ops_insert c (next_op s) (s\<lparr>getops := (getops s)(next_op s := g), next_op := Suc (next_op s)\<rparr>)) = restarts x s" for g
    using assms by (auto simp: unbound_def restarts_def)
  show ?thesis
  proof (cases rule: py_get_cases [of U c cb req env s])
    case same
    with assms show ?thesis by simp
  next
    case fault
    with assms show ?thesis by (simp add: unbound_def restarts_def)
  next
    case (idle g)
    with * [of g] show ?thesis by simp
  next
    case (live g)
    with * [of g] restart_unbound [of x _ "next_op s" "env_thrown env"] show ?thesis by simp
  qed
qed

lemma py_get_uncalled:
  assumes "uncalled x s"
  shows "uncalled x (snd (py_get U c cb req env s)) \<and> callbacks x (snd (py_get U c cb req env s)) = callbacks x s"
proof -
  have *: "uncalled x (ops_insert c (next_op s) (s\<lparr>getops := (getops s)(next_op s := g), next_op := Suc (next_op s)\<rparr>))
      \<and> callbacks x (ops_insert c (next_op s) (s\<lparr>getops := (getops s)(next_op s := g), next_op := Suc (next_op s)\<rparr>)) = callbacks x s" for g
    using assms by (auto simp: uncalled_def callbacks_def)
  show ?thesis
  proof (cases rule: py_get_cases [of U c cb req env s])
    case same
    with assms show ?thesis by simp
  next
    case fault
    with assms show ?thesis by (simp add: uncalled_def callbacks_def)
  next
    case (idle g)
    with * [of g] show ?thesis by simp
  next
    case (live g)
    with * [of g] restart_uncalled [of x _ "next_op s" "env_thrown env"] show ?thesis by simp
  qed
qed

lemma step_unbound: "unbound x s \<Longrightarrow> unbound x (step U e s) \<and> restarts x (step U e s) = restarts x s"
  by (cases e)
    (simp_all add: py_init_unbound py_channel_unbound close_unbound py_get_unbound py_cancel_unbound clear_unbound
      cancel_unbound destroy_def channelStateChange_unbound channelGetConnect_unbound getDone_unbound)

lemma step_uncalled: "uncalled x s \<Longrightarrow> uncalled x (step U e s) \<and> callbacks x (step U e s) = callbacks x s"
  by (cases e)
    (simp_all add: py_init_uncalled py_channel_uncalled close_uncalled py_get_uncalled py_cancel_uncalled clear_uncalled
      cancel_uncalled destroy_def channelStateChange_uncalled channelGetConnect_uncalled getDone_uncalled)

lemma run_unbound: "unbound x s \<Longrightarrow> unbound x (run U es s) \<and> restarts x (run U es s) = restarts x s"
  unfolding run_def by (induction es arbitrary: s) (auto simp: step_unbound)

lemma run_uncalled: "uncalled x s \<Longrightarrow> uncalled x (run U es s) \<and> callbacks x (run U es s) = callbacks x s"
  unfolding run_def by (induction es arbitrary: s) (auto simp: step_uncalled)

lemma cancel_makes_unbound: "x < next_op s \<Longrightarrow> unbound x (snd (cancel x s))"
  by (auto simp: unbound_def cancel_def OpBase_cancel_def Let_def split: option.splits)

lemma cancel_makes_uncalled: "x < next_op s \<Longrightarrow> uncalled x (snd (cancel x s))"
  by (auto simp: uncalled_def cancel_def OpBase_cancel_def Let_def split: option.splits)

lemma cancel_callbacks: "callbacks x (snd (cancel y s)) = callbacks x s"
  by (auto simp: callbacks_def cancel_def OpBase_cancel_def Let_def split: option.splits)

lemma cancel_restarts: "restarts x (snd (cancel y s)) = restarts x s"
  by (auto simp: restarts_def cancel_def OpBase_cancel_def Let_def split: option.splits)

lemma py_cancel_makes_unbound: "x < next_op s \<Longrightarrow> unbound x (snd (py_cancel x s))"
  using cancel_makes_unbound [of x s] by (auto simp: py_cancel_def unbound_def)

lemma py_cancel_unbound_False: "unbound x s \<Longrightarrow> \<not> fst (py_cancel x s)"
  by (simp add: py_cancel_def unbound_def)

section \<open>Steps that invoke no callback and issue no data request\<close>

lemma quiet_refl: "quiet s s"
  by (simp add: quiet_def)

lemma quiet_same: "trace s' = trace s \<Longrightarrow> quiet s s'"
  by (simp add: quiet_def)

lemma quiet_trans: "quiet s s' \<Longrightarrow> quiet s' s'' \<Longrightarrow> quiet s s''"
  by (auto simp: quiet_def)

lemma quiet_emit: "plain a \<Longrightarrow> quiet s (emit a s)"
  by (simp add: quiet_def)

lemma plain_neither: "plain a \<Longrightarrow> \<not> any_callback a \<and> \<not> is_callback x a \<and> \<not> is_get g a"
  by (cases a) simp_all

lemma plain_filters:
  "list_all plain tr \<Longrightarrow>
   filter any_callback tr = [] \<and> filter (is_callback x) tr = [] \<and> filter (is_get g) tr = []"
  by (auto simp: filter_empty_conv list_all_iff dest: plain_neither)


lemma quiet_callbacks: "quiet s s' \<Longrightarrow> callbacks x s' = callbacks x s"
  by (auto simp: quiet_def callbacks_def plain_filters)

lemma quiet_requests: "quiet s s' \<Longrightarrow> requests g s' = requests g s"
  by (auto simp: quiet_def requests_def plain_filters)

lemma restart_quiet: "quiet s (snd (restart y r s))"
  by (auto simp: quiet_def restart_def Let_def split: option.splits)

lemma restart_caught_quiet: "quiet s (restart_caught f y s)"
  using restart_quiet [of s y "f y"]
  by (auto simp: quiet_def restart_caught_trace split: option.splits)

lemma lostConn_quiet: "quiet s (lostConn y s)"
  by (auto simp: quiet_def lostConn_def Let_def split: option.splits)

lemma cancel_quiet: "quiet s (snd (cancel y s))"
  by (auto simp: quiet_def cancel_def OpBase_cancel_def Let_def split: option.splits)

lemma fold_quiet:
  assumes "\<And>y s. quiet s (f y s)"
  shows "quiet s (fold f ys s)"
proof (induction ys arbitrary: s)
  case Nil
  show ?case by (simp add: quiet_refl)
next
  case (Cons y ys)
  from assms [of s y] Cons [of "f y s"] show ?case
    by (simp add: quiet_trans)
qed

lemma channelStateChange_quiet: "quiet s (channelStateChange c st f s)"
proof -
  have a: "quiet s (set_ops c [] s)" by (simp add: quiet_same)
  have "quiet (set_ops c [] s) (fold (restart_caught f) ys (set_ops c [] s))" for ys
    by (rule fold_quiet) (rule restart_caught_quiet)
  moreover have "quiet (set_ops c [] s) (fold lostConn ys (set_ops c [] s))" for ys
    by (rule fold_quiet) (rule lostConn_quiet)
  moreover have "quiet (set_ops c [] s) (fold (\<lambda>it. snd \<circ> cancel it) ys (set_ops c [] s))" for ys
    by (rule fold_quiet) (simp add: cancel_quiet)
  ultimately show ?thesis
    using a by (cases st) (auto simp: channelStateChange_def quiet_refl intro: quiet_trans)
qed

lemma py_init_quiet: "quiet s (snd (py_init n r s))"
  by (simp add: quiet_def py_init_def Let_def)

lemma py_channel_quiet: "quiet s (snd (py_channel c n r s))"
  by (auto simp: quiet_def py_channel_def Let_def split: option.splits)

lemma close_quiet: "quiet s (close c s)"
  by (auto simp: quiet_def close_def Let_def trace_fold_emit list_all_iff split: option.splits)

lemma py_get_quiet: "quiet s (snd (py_get U c cb req env s))"
proof -
  have *: "quiet s (snd (restart x r s'))" if "trace s' = trace s" for x r s'
    using restart_quiet [of s' x r] that by (simp add: quiet_def)
  show ?thesis
  proof (cases rule: py_get_cases [of U c cb req env s])
    case same
    then show ?thesis by (simp add: quiet_refl)
  next
    case fault
    then show ?thesis by (simp add: quiet_emit)
  next
    case (idle g)
    then show ?thesis by (simp add: quiet_same)
  next
    case (live g)
    then show ?thesis by (simp add: *)
  qed
qed

lemma py_cancel_quiet: "quiet s (snd (py_cancel x s))"
  by (simp add: py_cancel_def cancel_quiet quiet_refl)

lemma clear_quiet: "quiet s (clear x s)"
  by (simp add: clear_def quiet_same)

lemma channelGetConnect_callbacks: "callbacks x (channelGetConnect y st g s) = callbacks x s"
  by (simp add: channelGetConnect_def callbacks_def)

lemma channelGetConnect_requests:
  "\<not> (g = h \<and> isSuccess st) \<Longrightarrow> requests g (channelGetConnect y st h s) = requests g s"
  by (auto simp: channelGetConnect_def requests_def)

lemma getDone_other: "x \<noteq> y \<Longrightarrow> callbacks x (getDone y st g v b r s) = callbacks x s"
  by (auto simp: getDone_def callbacks_def Let_def split: option.splits)

lemma getDone_requests: "requests g (getDone y st h v b r s) = requests g s"
  by (auto simp: getDone_def requests_def Let_def split: option.splits)

lemma step_callbacks: "\<not> is_done x e \<Longrightarrow> callbacks x (step U e s) = callbacks x s"
  by (cases e)
    (simp_all add: quiet_callbacks py_init_quiet py_channel_quiet close_quiet py_get_quiet py_cancel_quiet
      clear_quiet destroy_def cancel_quiet channelStateChange_quiet channelGetConnect_callbacks getDone_other)

lemma run_callbacks: "\<forall>e\<in>set es. \<not> is_done x e \<Longrightarrow> callbacks x (run U es s) = callbacks x s"
  unfolding run_def by (induction es arbitrary: s) (simp_all add: step_callbacks)

text \<open>A data request on an exchange is issued by a successful connect-phase notification
  for that exchange, and by nothing else.\<close>

lemma step_requests: "\<not> is_connect_ok g e \<Longrightarrow> requests g (step U e s) = requests g s"
  by (cases e)
    (simp_all add: quiet_requests py_init_quiet py_channel_quiet close_quiet py_get_quiet py_cancel_quiet
      clear_quiet destroy_def cancel_quiet channelStateChange_quiet channelGetConnect_requests getDone_requests)

lemma run_requests: "\<forall>e\<in>set es. \<not> is_connect_ok g e \<Longrightarrow> requests g (run U es s) = requests g s"
  unfolding run_def by (induction es arbitrary: s) (simp_all add: step_requests)

section \<open>Contexts\<close>

lemma restart_ctxs: "ctxs (snd (restart y r s)) = ctxs s \<and> next_ctx (snd (restart y r s)) = next_ctx s"
  by (auto simp: restart_def Let_def split: option.splits)

lemma restart_caught_ctxs: "ctxs (restart_caught f y s) = ctxs s \<and> next_ctx (restart_caught f y s) = next_ctx s"
  by (simp add: restart_caught_fields restart_ctxs)

lemma lostConn_ctxs: "ctxs (lostConn y s) = ctxs s \<and> next_ctx (lostConn y s) = next_ctx s"
  by (auto simp: lostConn_def Let_def split: option.splits)

lemma cancel_ctxs: "ctxs (snd (cancel y s)) = ctxs s \<and> next_ctx (snd (cancel y s)) = next_ctx s"
  by (auto simp: cancel_def OpBase_cancel_def Let_def split: option.splits)

lemma fold_ctxs:
  assumes "\<And>y s. ctxs (f y s) = ctxs s \<and> next_ctx (f y s) = next_ctx s"
  shows "ctxs (fold f ys s) = ctxs s \<and> next_ctx (fold f ys s) = next_ctx s"
  by (induction ys arbitrary: s) (simp_all add: assms)

lemma channelStateChange_ctxs:
  "ctxs (channelStateChange c st f s) = ctxs s \<and> next_ctx (channelStateChange c st f s) = next_ctx s"
proof -
  have "ctxs (fold (restart_caught f) ys t) = ctxs t \<and> next_ctx (fold (restart_caught f) ys t) = next_ctx t"
    for ys t
    by (rule fold_ctxs) (rule restart_caught_ctxs)
  moreover have "ctxs (fold lostConn ys t) = ctxs t \<and> next_ctx (fold lostConn ys t) = next_ctx t" for ys t
    by (rule fold_ctxs) (rule lostConn_ctxs)
  moreover have "ctxs (fold (\<lambda>it. snd \<circ> cancel it) ys t) = ctxs t
      \<and> next_ctx (fold (\<lambda>it. snd \<circ> cancel it) ys t) = next_ctx t" for ys t
    by (rule fold_ctxs) (simp add: cancel_ctxs)
  ultimately show ?thesis
    by (cases st) (simp_all add: channelStateChange_def)
qed

lemma py_get_ctxs:
  "ctxs (snd (py_get U c cb req env s)) = ctxs s \<and> next_ctx (snd (py_get U c cb req env s)) = next_ctx s"
  by (cases rule: py_get_cases [of U c cb req env s]) (simp_all add: restart_ctxs)

lemma op_step_ctxs:
  "ctxs (snd (py_cancel x s)) = ctxs s \<and> next_ctx (snd (py_cancel x s)) = next_ctx s"
  "ctxs (clear x s) = ctxs s \<and> next_ctx (clear x s) = next_ctx s"
  "ctxs (destroy x s) = ctxs s \<and> next_ctx (destroy x s) = next_ctx s"
  "ctxs (channelGetConnect x st g s) = ctxs s \<and> next_ctx (channelGetConnect x st g s) = next_ctx s"
  "ctxs (getDone x st g v b r s) = ctxs s \<and> next_ctx (getDone x st g v b r s) = next_ctx s"
  by (auto simp: py_cancel_def clear_def destroy_def channelGetConnect_def getDone_def Let_def cancel_ctxs
      split: option.splits)

lemma ctxs_fold_emit: "ctxs (fold (\<lambda>(n, c). emit (f c)) xs s) = ctxs s"
  by (induction xs arbitrary: s) auto

lemma next_ctx_fold_emit: "next_ctx (fold (\<lambda>(n, c). emit (f c)) xs s) = next_ctx s"
  by (induction xs arbitrary: s) auto

lemma close_closed: "closed c s \<Longrightarrow> closed c (close c' s)"
  by (auto simp: closed_def close_def Let_def ctxs_fold_emit next_ctx_fold_emit split: option.splits)

lemma py_init_closed: "closed c s \<Longrightarrow> closed c (snd (py_init n r s))"
  by (auto simp: closed_def py_init_def Let_def)

lemma py_channel_closed: "closed c s \<Longrightarrow> closed c (snd (py_channel c' n r s))"
  by (auto simp: closed_def py_channel_def Let_def split: option.splits)

lemma step_closed: "closed c s \<Longrightarrow> closed c (step U e s)"
  by (cases e)
    (simp_all add: py_init_closed py_channel_closed close_closed,
      simp_all add: closed_def py_get_ctxs op_step_ctxs channelStateChange_ctxs)

lemma run_closed: "closed c s \<Longrightarrow> closed c (run U es s)"
  unfolding run_def by (induction es arbitrary: s) (simp_all add: step_closed)

lemma step_registries_ok: "registries_ok s \<Longrightarrow> registries_ok (step U e s)"
proof (cases e)
  case (EvInit n r)
  assume "registries_ok s"
  then show ?thesis by (auto simp: EvInit registries_ok_def py_init_def Let_def)
next
  case (EvChannel c n r)
  assume "registries_ok s"
  then show ?thesis by (auto simp: EvChannel registries_ok_def py_channel_def Let_def split: option.splits)
next
  case (EvClose c)
  assume "registries_ok s"
  then show ?thesis by (auto simp: EvClose registries_ok_def close_def Let_def ctxs_fold_emit split: option.splits)
qed (simp_all add: registries_ok_def py_get_ctxs op_step_ctxs channelStateChange_ctxs)

lemma reachable_registries_ok: "registries_ok (run U es init_world)"
proof -
  have "registries_ok s \<Longrightarrow> registries_ok (run U es s)" for s
    unfolding run_def by (induction es arbitrary: s) (simp_all add: step_registries_ok)
  moreover have "registries_ok init_world"
    by (simp add: registries_ok_def init_world_def)
  ultimately show ?thesis by simp
qed

lemma close_twice: "close c (close c s) = close c s"
  by (auto simp: close_def Let_def ctxs_fold_emit split: option.splits)




lemma sorted_keys_insort:
  "sorted (map fst xs) \<Longrightarrow> sorted (map fst (insort_key fst (n, h) xs))"
  by (simp add: sorted_insort_key)




section \<open>Cancelled operations\<close>

lemma cancel_cancelled: "cancelled x (snd (cancel x s))"
  by (auto simp: cancelled_def cancel_def OpBase_cancel_def Let_def split: option.splits)

lemma cancel_keeps_cancelled: "cancelled x s \<Longrightarrow> cancelled x (snd (cancel y s))"
  by (auto simp: cancelled_def cancel_def OpBase_cancel_def Let_def split: option.splits)

lemma fold_cancel_cancelled:
  "x \<in> set ys \<or> cancelled x s \<Longrightarrow> cancelled x (fold (\<lambda>it. snd \<circ> cancel it) ys s)"
proof (induction ys arbitrary: s)
  case Nil
  then show ?case by simp
next
  case (Cons y ys)
  have "x \<in> set ys \<or> cancelled x (snd (cancel y s))"
    using Cons.prems cancel_cancelled [of x s] cancel_keeps_cancelled [of x s y] by auto
  then show ?case using Cons.IH by simp
qed

lemma cancel_ops_empty: "ch_ops (chans s c) = [] \<Longrightarrow> ch_ops (chans (snd (cancel y s)) c) = []"
  by (auto simp: cancel_def OpBase_cancel_def Let_def split: option.splits)

lemma fold_cancel_ops_empty:
  "ch_ops (chans s c) = [] \<Longrightarrow> ch_ops (chans (fold (\<lambda>it. snd \<circ> cancel it) ys s) c) = []"
  by (induction ys arbitrary: s) (simp_all add: cancel_ops_empty)

lemma cancel_next_op: "next_op (snd (cancel y s)) = next_op s"
  by (auto simp: cancel_def OpBase_cancel_def Let_def split: option.splits)

lemma fold_cancel_next_op: "next_op (fold (\<lambda>it. snd \<circ> cancel it) ys s) = next_op s"
  by (induction ys arbitrary: s) (simp_all add: cancel_next_op)

lemma fold_cancel_restarts: "restarts x (fold (\<lambda>it. snd \<circ> cancel it) ys s) = restarts x s"
  by (induction ys arbitrary: s) (simp_all add: cancel_restarts)

text \<open>An operation without channel reference that is in no set of a channel is never
  inserted again.\<close>

lemma restart_out:
  "unbound x s \<Longrightarrow> x \<notin> set (ch_ops (chans s c)) \<Longrightarrow> x \<notin> set (ch_ops (chans (snd (restart y r s)) c))"
  by (auto simp: unbound_def restart_def Let_def split: option.splits if_splits)

lemma restart_caught_out:
  "unbound x s \<Longrightarrow> x \<notin> set (ch_ops (chans s c)) \<Longrightarrow> x \<notin> set (ch_ops (chans (restart_caught f y s) c))"
  by (simp add: restart_caught_fields restart_out)

lemma lostConn_out: "unbound x s \<Longrightarrow> x \<notin> set (ch_ops (chans s c)) \<Longrightarrow> x \<notin> set (ch_ops (chans (lostConn y s) c))"
  by (auto simp: unbound_def lostConn_def Let_def split: option.splits if_splits)

lemma cancel_out: "x \<notin> set (ch_ops (chans s c)) \<Longrightarrow> x \<notin> set (ch_ops (chans (snd (cancel y s)) c))"
  by (auto simp: cancel_def OpBase_cancel_def Let_def split: option.splits if_splits dest: notin_set_remove1)

lemma fold_out:
  assumes "\<And>y s. unbound x s \<Longrightarrow> unbound x (f y s)"
    and "\<And>y s. unbound x s \<Longrightarrow> x \<notin> set (ch_ops (chans s c)) \<Longrightarrow> x \<notin> set (ch_ops (chans (f y s) c))"
  shows "unbound x s \<Longrightarrow> x \<notin> set (ch_ops (chans s c)) \<Longrightarrow> x \<notin> set (ch_ops (chans (fold f ys s) c))"
  by (induction ys arbitrary: s) (simp_all add: assms)

lemma channelStateChange_out:
  assumes "unbound x s" and "x \<notin> set (ch_ops (chans s c))"
  shows "x \<notin> set (ch_ops (chans (channelStateChange c' st f s) c))"
proof -
  have u: "unbound x (set_ops c' [] s)"
    using assms(1) by (simp add: unbound_def)
  have o: "x \<notin> set (ch_ops (chans (set_ops c' [] s) c))"
    using assms(2) by simp
  have 1: "x \<notin> set (ch_ops (chans (fold (restart_caught f) ys (set_ops c' [] s)) c))" for ys
    using u o by (rule fold_out [rotated 2]) (simp_all add: restart_caught_unbound restart_caught_out)
  have 2: "x \<notin> set (ch_ops (chans (fold lostConn ys (set_ops c' [] s)) c))" for ys
    using u o by (rule fold_out [rotated 2]) (simp_all add: lostConn_unbound lostConn_out)
  have 3: "x \<notin> set (ch_ops (chans (fold (\<lambda>it. snd \<circ> cancel it) ys (set_ops c' [] s)) c))" for ys
    using u o by (rule fold_out [rotated 2]) (simp_all add: cancel_unbound cancel_out)
  from 1 2 3 assms(2) show ?thesis
    by (cases st) (simp_all add: channelStateChange_def)
qed

lemma chans_fold_emit: "chans (fold (\<lambda>(n, c). emit (f c)) xs s) = chans s"
  by (induction xs arbitrary: s) auto

lemma py_get_out:
  assumes "unbound x s" and "x \<notin> set (ch_ops (chans s c))"
  shows "x \<notin> set (ch_ops (chans (snd (py_get U c' cb req env s)) c))"
proof -
  have *: "unbound x (ops_insert c' (next_op s) (s\<lparr>getops := (getops s)(next_op s := g), next_op := Suc (next_op s)\<rparr>))
      \<and> x \<notin> set (ch_ops (chans (ops_insert c' (next_op s) (s\<lparr>getops := (getops s)(next_op s := g), next_op := Suc (next_op s)\<rparr>)) c))" for g
    using assms by (auto simp: unbound_def)
  show ?thesis
  proof (cases rule: py_get_cases [of U c' cb req env s])
    case same
    with assms show ?thesis by simp
  next
    case fault
    with assms show ?thesis by simp
  next
    case (idle g)
    with * [of g] show ?thesis by simp
  next
    case (live g)
    with * [of g] restart_out [of x _ c "next_op s" "env_thrown env"] show ?thesis by simp
  qed
qed

lemma step_out:
  assumes "unbound x s" and "x \<notin> set (ch_ops (chans s c))"
  shows "x \<notin> set (ch_ops (chans (step U e s) c))"
proof (cases e)
  case (EvInit n r)
  with assms show ?thesis by (simp add: py_init_def Let_def)
next
  case (EvChannel c' n r)
  with assms show ?thesis
    by (auto simp: py_channel_def Let_def unbound_def split: option.splits)
next
  case (EvClose c')
  with assms show ?thesis by (auto simp: close_def Let_def chans_fold_emit split: option.splits)
next
  case (EvGet c' cb req env)
  with assms show ?thesis by (simp add: py_get_out)
next
  case (EvCancel y)
  with assms show ?thesis by (simp add: py_cancel_def cancel_out)
next
  case (EvClear y)
  with assms show ?thesis by (simp add: clear_def)
next
  case (EvDestroy y)
  with assms show ?thesis by (simp add: destroy_def cancel_out)
next
  case (EvStateChange c' st f)
  with assms show ?thesis by (simp add: channelStateChange_out)
next
  case (EvGetConnect y st g)
  with assms show ?thesis by (simp add: channelGetConnect_def)
next
  case (EvGetDone y st g v b r)
  with assms show ?thesis by (auto simp: getDone_def Let_def split: option.splits)
qed

lemma run_out:
  "unbound x s \<Longrightarrow> x \<notin> set (ch_ops (chans s c)) \<Longrightarrow> x \<notin> set (ch_ops (chans (run U es s) c))"
  unfolding run_def by (induction es arbitrary: s) (simp_all add: step_out step_unbound)


section \<open>Reachable worlds are well formed\<close>


lemma lostConn_frame:
  "op_channel (getops (lostConn y s) x) = op_channel (getops s x)"
  "ch_channel (chans (lostConn y s) c) = ch_channel (chans s c)"
  by (auto simp: lostConn_def Let_def split: option.splits)

lemma wf_worldD:
  assumes "wf_world s"
  shows "distinct (ch_ops (chans s c))"
    and "x \<in> set (ch_ops (chans s c)) \<Longrightarrow> x < next_op s"
    and "x \<in> set (ch_ops (chans s c)) \<Longrightarrow> op_channel (getops s x) = Some c"
    and "x \<in> set (ch_ops (chans s c)) \<Longrightarrow> ch_channel (chans s c) \<noteq> None"
  using assms by (auto simp: wf_world_def)

lemma wf_world_trace: "chans s' = chans s \<Longrightarrow> getops s' = getops s \<Longrightarrow> next_op s' = next_op s \<Longrightarrow>
    wf_world s \<Longrightarrow> wf_world s'"
  by (simp add: wf_world_def)

lemma set_ops_empty_wf: "wf_world s \<Longrightarrow> wf_world (set_ops c [] s)"
  by (auto simp: wf_world_def)

lemma insert_wf:
  assumes "wf_world s" and "y < next_op s" and "op_channel (getops s y) = Some c"
    and "ch_channel (chans s c) \<noteq> None"
  shows "wf_world (ops_insert c y s)"
  using assms by (auto simp: wf_world_def)

lemma upd_op_wf:
  assumes "wf_world s" and "op_channel (f (getops s y)) = op_channel (getops s y)"
  shows "wf_world (upd_op y f s)"
  using assms by (auto simp: wf_world_def)

lemma restart_next_op: "next_op (snd (restart y r s)) = next_op s"
  by (auto simp: restart_def Let_def split: option.splits)

lemma lostConn_next_op: "next_op (lostConn y s) = next_op s"
  by (auto simp: lostConn_def Let_def split: option.splits)

lemma restart_wf:
  assumes "wf_world s" and "y < next_op s"
  shows "wf_world (snd (restart y r s))"
proof (cases "op_channel (getops s y)")
  case None
  then show ?thesis using assms by (simp add: restart_def)
next
  case (Some c)
  define s1 where "s1 = (case op_op (getops s y) of
      None \<Rightarrow> s | Some t \<Rightarrow> emit (ChannelGetDestroy t) (upd_op y (\<lambda>g. g\<lparr>op_op := None\<rparr>) s))"
  have w1: "wf_world s1"
    using assms(1) by (auto simp: s1_def wf_world_def split: option.splits)
  have f1: "next_op s1 = next_op s" "op_channel (getops s1 y) = Some c" "chans s1 = chans s"
    using Some by (auto simp: s1_def split: option.splits)
  show ?thesis
  proof (cases "ch_channel (chans s c)")
    case None
    with Some f1 have "snd (restart y r s) = emit NullDeref s1"
      by (simp add: restart_def s1_def Let_def)
    with w1 show ?thesis by (simp add: wf_world_def)
  next
    case pc: (Some pc)
    define s2 where "s2 = emit (CreateChannelGet pc y (op_req (getops s1 y))) s1"
    have w2: "wf_world s2"
      using w1 by (simp add: s2_def wf_world_def)
    show ?thesis
    proof (cases r)
      case (Some e)
      with \<open>op_channel (getops s y) = Some c\<close> pc f1 have "snd (restart y r s) = s2"
        by (simp add: restart_def s1_def s2_def Let_def)
      with w2 show ?thesis by simp
    next
      case None
      define s3 where "s3 = upd_op y (\<lambda>g. g\<lparr>op_op := Some (next_get s2)\<rparr>) (s2\<lparr>next_get := Suc (next_get s2)\<rparr>)"
      have "wf_world s3"
        using w2 by (auto simp: s3_def wf_world_def)
      moreover have "y < next_op s3" "op_channel (getops s3 y) = Some c" "ch_channel (chans s3 c) \<noteq> None"
        using assms(2) f1 pc by (simp_all add: s3_def s2_def)
      ultimately have "wf_world (ops_insert c y s3)" by (rule insert_wf)
      moreover have "snd (restart y r s) = ops_insert c y s3"
        using \<open>op_channel (getops s y) = Some c\<close> pc f1 None
        by (simp add: restart_def s1_def s2_def s3_def Let_def)
      ultimately show ?thesis by simp
    qed
  qed
qed

lemma restart_caught_wf:
  assumes "wf_world s" and "y < next_op s"
  shows "wf_world (restart_caught f y s)"
  using restart_wf [OF assms, of "f y"]
  by (rule wf_world_trace [rotated 3]) (simp_all add: restart_caught_fields)

lemma lostConn_wf:
  assumes "wf_world s" and "y < next_op s"
    and "\<forall>c. op_channel (getops s y) = Some c \<longrightarrow> ch_channel (chans s c) \<noteq> None"
  shows "wf_world (lostConn y s)"
proof (cases "op_channel (getops s y)")
  case None
  then show ?thesis using assms by (simp add: lostConn_def)
next
  case (Some c)
  with assms have w1: "wf_world (ops_insert c y s)"
    by (intro insert_wf) simp_all
  then have "wf_world (emit (ChannelGetDestroy t) (upd_op y (\<lambda>g. g\<lparr>op_op := None\<rparr>) (ops_insert c y s)))" for t
    by (auto simp: wf_world_def)
  with w1 Some show ?thesis
    by (simp add: lostConn_def Let_def split: option.splits)
qed

lemma cancel_wf:
  assumes "wf_world s"
  shows "wf_world (snd (cancel y s))"
proof -
  define s1 where "s1 = snd (OpBase_cancel y s)"
  define s2 where "s2 = upd_op y (\<lambda>g. g\<lparr>op_channel := None, op_cb := None\<rparr>) s1"
  have n1: "\<forall>c. y \<notin> set (ch_ops (chans s1 c))"
  proof
    fix c
    show "y \<notin> set (ch_ops (chans s1 c))"
    proof (cases "op_channel (getops s y)")
      case None
      with wf_worldD(3) [OF assms, of y c] show ?thesis
        by (auto simp: s1_def OpBase_cancel_def)
    next
      case (Some c')
      with wf_worldD(3) [OF assms, of y c] wf_worldD(1) [OF assms, of c'] show ?thesis
        by (auto simp: s1_def OpBase_cancel_def)
    qed
  qed
  have w1: "wf_world s1"
    using assms
    by (auto simp: s1_def OpBase_cancel_def wf_world_def distinct_remove1 split: option.splits
        dest: notin_set_remove1)
  have w2: "wf_world s2"
    using w1 n1 by (auto simp: s2_def wf_world_def)
  then have "wf_world (emit (ChannelGetDestroy t) (upd_op y (\<lambda>g. g\<lparr>op_op := None\<rparr>) s2))" for t
    by (auto simp: wf_world_def)
  with w2 show ?thesis
    by (simp add: cancel_def s1_def s2_def Let_def split: option.splits)
qed

lemma fold_restart_wf:
  "wf_world s \<Longrightarrow> \<forall>y\<in>set ys. y < next_op s \<Longrightarrow> wf_world (fold (restart_caught f) ys s)"
  by (induction ys arbitrary: s) (simp_all add: restart_caught_wf restart_caught_fields restart_next_op)

lemma fold_lostConn_wf:
  "wf_world s \<Longrightarrow>
   \<forall>y\<in>set ys. y < next_op s \<and> (\<forall>c. op_channel (getops s y) = Some c \<longrightarrow> ch_channel (chans s c) \<noteq> None) \<Longrightarrow>
   wf_world (fold lostConn ys s)"
  by (induction ys arbitrary: s) (simp_all add: lostConn_wf lostConn_next_op lostConn_frame)

lemma fold_cancel_wf: "wf_world s \<Longrightarrow> wf_world (fold (\<lambda>it. snd \<circ> cancel it) ys s)"
  by (induction ys arbitrary: s) (simp_all add: cancel_wf)

lemma channelStateChange_wf:
  assumes "wf_world s"
  shows "wf_world (channelStateChange c st f s)"
proof -
  let ?ys = "ch_ops (chans s c)"
  let ?t = "set_ops c [] s"
  have w: "wf_world ?t" using assms by (rule set_ops_empty_wf)
  have b: "\<forall>y\<in>set ?ys. y < next_op ?t \<and>
      (\<forall>c'. op_channel (getops ?t y) = Some c' \<longrightarrow> ch_channel (chans ?t c') \<noteq> None)"
    using assms by (auto simp: wf_world_def)
  then have b': "\<forall>y\<in>set ?ys. y < next_op ?t" by blast
  show ?thesis
  proof (cases st)
    case NEVER_CONNECTED
    with assms show ?thesis by (simp add: channelStateChange_def)
  next
    case CONNECTED
    with fold_restart_wf [OF w b'] show ?thesis by (simp add: channelStateChange_def)
  next
    case DISCONNECTED
    with fold_lostConn_wf [OF w b] show ?thesis by (simp add: channelStateChange_def)
  next
    case DESTROYED
    with fold_cancel_wf [OF w] show ?thesis by (simp add: channelStateChange_def)
  qed
qed

lemma py_get_wf:
  assumes "wf_world s"
  shows "wf_world (snd (py_get U c cb req env s))"
proof -
  have *: "wf_world (snd (restart (next_op s) r s2)) \<and> wf_world s2"
    if pc: "ch_channel (chans s c) \<noteq> None"
      and s2: "s2 = ops_insert c (next_op s) (s\<lparr>getops := (getops s)(next_op s := g), next_op := Suc (next_op s)\<rparr>)"
      and g: "op_channel g = Some c"
    for s2 g r
  proof -
    let ?s1 = "s\<lparr>getops := (getops s)(next_op s := g), next_op := Suc (next_op s)\<rparr>"
    have "wf_world ?s1"
      using assms by (fastforce simp: wf_world_def)
    then have "wf_world s2"
      unfolding s2 using pc g by (intro insert_wf) simp_all
    moreover have "next_op s < next_op s2" by (simp add: s2)
    ultimately show ?thesis by (simp add: restart_wf)
  qed
  show ?thesis
  proof (cases rule: py_get_cases [of U c cb req env s])
    case same
    with assms show ?thesis by simp
  next
    case fault
    with assms show ?thesis by (simp add: wf_world_def)
  next
    case (idle g)
    with * [OF idle(3) refl idle(1)] show ?thesis by simp
  next
    case (live g)
    with * [OF live(3) refl live(1)] show ?thesis by simp
  qed
qed

lemma step_wf: "wf_world s \<Longrightarrow> wf_world (step U e s)"
proof (cases e)
  case (EvInit n r)
  assume "wf_world s"
  then show ?thesis by (simp add: EvInit py_init_def Let_def wf_world_def)
next
  case (EvChannel c n r)
  assume "wf_world s"
  then show ?thesis
    by (auto simp: EvChannel py_channel_def Let_def wf_world_def split: option.splits)
next
  case (EvClose c)
  assume "wf_world s"
  then show ?thesis
    by (auto simp: EvClose close_def Let_def wf_world_def chans_fold_emit getops_fold_emit next_op_fold_emit
        split: option.splits)
next
  case (EvGet c cb req env)
  assume "wf_world s"
  then show ?thesis by (simp add: EvGet py_get_wf)
next
  case (EvCancel x)
  assume "wf_world s"
  then show ?thesis by (simp add: EvCancel py_cancel_def cancel_wf)
next
  case (EvClear x)
  assume "wf_world s"
  then show ?thesis by (simp add: EvClear clear_def upd_op_wf)
next
  case (EvDestroy x)
  assume "wf_world s"
  then show ?thesis by (simp add: EvDestroy destroy_def cancel_wf)
next
  case (EvStateChange c st f)
  assume "wf_world s"
  then show ?thesis by (simp add: EvStateChange channelStateChange_wf)
next
  case (EvGetConnect x st g)
  assume "wf_world s"
  then show ?thesis by (simp add: EvGetConnect channelGetConnect_def wf_world_def)
next
  case (EvGetDone x st g v b r)
  assume "wf_world s"
  then show ?thesis
    by (auto simp: EvGetDone getDone_def Let_def wf_world_def split: option.splits)
qed

lemma run_wf: "wf_world s \<Longrightarrow> wf_world (run U es s)"
  unfolding run_def by (induction es arbitrary: s) (simp_all add: step_wf)

lemma reachable_wf: "wf_world (run U es init_world)"
  by (rule run_wf) (simp add: wf_world_def init_world_def)

lemma reachable_registered:
  "x \<in> set (ch_ops (chans (run U es init_world) c)) \<Longrightarrow>
   registered c (run U es init_world) \<and> x < next_op (run U es init_world)"
  using reachable_wf [of U es] by (auto simp: registered_def wf_world_def)

section \<open>Channel objects keep their transport handle\<close>











section \<open>The transitions on a well-formed channel\<close>















section \<open>What a completion notification and a get do\<close>

lemma getDone_calls:
  "op_cb (getops s x) = Some f \<Longrightarrow>
   added s (getDone x st g v True r s) =
     CallCallback x f (if isSuccess st then P4PValue v else PyRuntimeError (c_str (getMessage st))) #
     (if r = None then [PyErr_Print, PyErr_Clear] else [])"
  by (simp add: getDone_def added_def)



section \<open>C1: cancel is idempotent and final\<close>

text \<open>
  C1.  For an existing operation \<open>self\<close>, in any world: after a first user-level
  \<open>cancel()\<close>, whatever happens next (any sequence \<open>es\<close> of host calls and transport
  notifications), every further \<open>cancel()\<close> returns false.  If the first call returned
  true, then no callback of the operation is invoked from then on: the callback
  invocations of \<open>self\<close> in the trace are those from before the cancel, and a completion
  notification delivered afterwards leaves the world as it is.
\<close>

theorem cancel_idempotent:
  assumes "self < next_op s"
  shows "\<not> fst (py_cancel self (run U es (snd (py_cancel self s)))) \<and>
         (fst (py_cancel self s) \<longrightarrow>
            callbacks self (run U es (snd (py_cancel self s))) = callbacks self s \<and>
            getDone self st g v b r (run U es (snd (py_cancel self s))) = run U es (snd (py_cancel self s)))"
proof -
  let ?s1 = "snd (py_cancel self s)"
  have u: "unbound self ?s1" using assms by (rule py_cancel_makes_unbound)
  have "unbound self (run U es ?s1)" using run_unbound [OF u] by simp
  then have a: "\<not> fst (py_cancel self (run U es ?s1))" by (rule py_cancel_unbound_False)
  have b: "callbacks self (run U es ?s1) = callbacks self s \<and>
      getDone self st g v b r (run U es ?s1) = run U es ?s1" if t: "fst (py_cancel self s)"
  proof -
    from t have eq: "py_cancel self s = cancel self s"
      by (auto simp: py_cancel_def split: if_splits)
    have c: "uncalled self ?s1" unfolding eq using assms by (rule cancel_makes_uncalled)
    have "callbacks self ?s1 = callbacks self s" unfolding eq by (rule cancel_callbacks)
    moreover have "uncalled self (run U es ?s1) \<and> callbacks self (run U es ?s1) = callbacks self ?s1"
      using run_uncalled [OF c] .
    moreover from this have "op_cb (getops (run U es ?s1) self) = None" by (simp add: uncalled_def)
    then have "getDone self st g v b r (run U es ?s1) = run U es ?s1" by (simp add: getDone_def)
    ultimately show ?thesis by simp
  qed
  from a b show ?thesis by blast
qed

text \<open>On \<open>world_get\<close> the first cancel returns true; the channel then connects and a
  completion is delivered, and the callback stays silent.\<close>

theorem cancel_idempotent_witness:
  "0 < next_op world_get \<and> fst (py_cancel 0 world_get) \<and>
   \<not> fst (py_cancel 0 (run unwrap_example
       [EvStateChange 0 CONNECTED returns, EvGetDone 0 (Status STATUSTYPE_OK []) 0 (PVStructure []) True (Some Py_None)]
       (snd (py_cancel 0 world_get)))) \<and>
   callbacks 0 (run unwrap_example
       [EvStateChange 0 CONNECTED returns, EvGetDone 0 (Status STATUSTYPE_OK []) 0 (PVStructure []) True (Some Py_None)]
       (snd (py_cancel 0 world_get))) = [] \<and>
   callbacks 0 (run unwrap_example
       [EvStateChange 0 CONNECTED returns, EvGetDone 0 (Status STATUSTYPE_OK []) 0 (PVStructure []) True (Some Py_None)]
       world_get) = [CallCallback 0 (PyCallable 1) (P4PValue (PVStructure []))]"
proof -
  have h: "0 < next_op world_get"
    by (simp add: world_get_def eval_defs)
  have t: "fst (py_cancel 0 world_get)"
    by (simp add: world_get_def eval_defs)
  have c: "callbacks 0 world_get = []"
    by (simp add: world_get_def eval_defs)
  have d: "callbacks 0 (run unwrap_example
       [EvStateChange 0 CONNECTED returns, EvGetDone 0 (Status STATUSTYPE_OK []) 0 (PVStructure []) True (Some Py_None)]
       world_get) = [CallCallback 0 (PyCallable 1) (P4PValue (PVStructure []))]"
    by (simp add: world_get_def eval_defs)
  from cancel_idempotent [OF h, of unwrap_example
      "[EvStateChange 0 CONNECTED returns, EvGetDone 0 (Status STATUSTYPE_OK []) 0 (PVStructure []) True (Some Py_None)]"]
    h t c d
  show ?thesis by simp
qed


section \<open>C2: Connected, Disconnected, Connected\<close>




section \<open>C3: close\<close>

text \<open>
  C3.  For an existing context whose registry is empty whenever it has no provider (which
  holds in every reachable world, \<open>reachable_registries_ok\<close>): a second \<open>close()\<close>
  changes nothing; after \<open>close()\<close> the provider handle is null and the registry is
  empty; the transport calls of \<open>close()\<close> are exactly one \<open>destroy()\<close> for each
  tracked channel, in key order; and after any further run \<open>es\<close>, \<open>channel(n)\<close> fails
  with "Context has been closed" for every name \<open>n\<close>, leaving the world unchanged.
\<close>

theorem close_final:
  assumes "c < next_ctx s"
    and "ctx_provider (ctxs s c) = None \<longrightarrow> ctx_channels (ctxs s c) = []"
  shows "close c (close c s) = close c s \<and>
         ctx_provider (ctxs (close c s) c) = None \<and>
         ctx_channels (ctxs (close c s) c) = [] \<and>
         added s (close c s) = map (\<lambda>(n, h). ChannelDestroy h) (ctx_channels (ctxs s c)) \<and>
         py_channel c n r (run U es (close c s)) =
           (Inl (RuntimeError ''Context has been closed''), run U es (close c s))"
proof -
  have a: "ctx_provider (ctxs (close c s) c) = None"
    by (auto simp: close_def Let_def ctxs_fold_emit split: option.splits)
  have b: "ctx_channels (ctxs (close c s) c) = []"
    using assms(2) by (auto simp: close_def Let_def ctxs_fold_emit split: option.splits)
  have d: "added s (close c s) = map (\<lambda>(n, h). ChannelDestroy h) (ctx_channels (ctxs s c))"
    using assms(2) by (auto simp: close_def added_def Let_def trace_fold_emit split: option.splits)
  have "closed c (close c s)"
    using assms(1) a by (auto simp: closed_def close_def Let_def next_ctx_fold_emit split: option.splits)
  then have "closed c (run U es (close c s))" by (rule run_closed)
  then have e: "py_channel c n r (run U es (close c s)) =
      (Inl (RuntimeError ''Context has been closed''), run U es (close c s))"
    by (simp add: closed_def py_channel_def)
  from a b d e close_twice show ?thesis by simp
qed

theorem close_final_witness:
  "0 < next_ctx world_two \<and> ctx_provider (ctxs world_two 0) = Some ''pva'' \<and>
   close 0 (close 0 world_two) = close 0 world_two \<and>
   ctx_provider (ctxs (close 0 world_two) 0) = None \<and>
   ctx_channels (ctxs (close 0 world_two) 0) = [] \<and>
   added world_two (close 0 world_two) = [ChannelDestroy 7, ChannelDestroy 8] \<and>
   py_channel 0 ''R1'' (Some 9) (run unwrap_example [EvInit ''ca'' (Some ''ca'')] (close 0 world_two)) =
     (Inl (RuntimeError ''Context has been closed''),
      run unwrap_example [EvInit ''ca'' (Some ''ca'')] (close 0 world_two))"
proof -
  have h1: "0 < next_ctx world_two"
    by (simp add: world_two_def eval_defs)
  have h2: "ctx_provider (ctxs world_two 0) = None \<longrightarrow> ctx_channels (ctxs world_two 0) = []"
    by (simp add: world_two_def eval_defs)
  have h3: "ctx_provider (ctxs world_two 0) = Some ''pva''"
    by (simp add: world_two_def eval_defs)
  have h4: "ctx_channels (ctxs world_two 0) = [(''R1'', 7), (''R2'', 8)]"
    by (simp add: world_two_def eval_defs)
  from close_final [OF h1 h2, of "''R1''" "Some 9" unwrap_example "[EvInit ''ca'' (Some ''ca'')]"] h1 h3 h4
  show ?thesis by simp
qed


section \<open>C4: one transport connection per name\<close>




section \<open>C5: the completion notification invokes the callback\<close>

text \<open>
  C5, as stated, fails in two ways.  When the host cannot build the object to pass, the
  completion invokes nothing although the callback \<open>PyCallable 1\<close> of \<open>world_get\<close> is
  installed, on a success status (the wrapping yields null) and on a failure status (the
  construction of the error yields null).  And the message of the error value is the
  transport's text as a C string, which ends at the first NUL: the text "no", NUL,
  "field" arrives as "no".
\<close>

theorem getDone_once_counterexample:
  "op_cb (getops world_get 0) = Some (PyCallable 1) \<and>
   isSuccess (Status STATUSTYPE_OK []) \<and>
   filter any_callback
     (added world_get (getDone 0 (Status STATUSTYPE_OK []) 0 (PVStructure []) False (Some Py_None) world_get)) = [] \<and>
   \<not> isSuccess (Status STATUSTYPE_ERROR ''no such field'') \<and>
   filter any_callback
     (added world_get
        (getDone 0 (Status STATUSTYPE_ERROR ''no such field'') 0 (PVStructure []) False (Some Py_None) world_get)) = [] \<and>
   added world_get
     (getDone 0 (Status STATUSTYPE_ERROR (''no'' @ [CHR 0x00] @ ''field'')) 0 (PVStructure []) True
        (Some Py_None) world_get) =
     [CallCallback 0 (PyCallable 1) (PyRuntimeError ''no'')] \<and>
   ''no'' \<noteq> ''no'' @ [CHR 0x00] @ ''field''"
  by (simp add: world_get_def eval_defs)

text \<open>
  C5, amended.  On a completion notification for a Get-Operation whose callback \<open>f\<close> is
  still installed, and provided the host builds the object to pass, the calls made are:
  one invocation of \<open>f\<close>, with the returned value wrapped when the status is a success
  and with a \<open>RuntimeError\<close> otherwise, whose message is the transport's text up to its
  first NUL (the whole text when it has none), followed by the printing and clearing of
  the host error if the callback raised.  If no callback is installed, the notification
  changes nothing.
\<close>

theorem getDone_built:
  "(op_cb (getops s x) = Some f \<longrightarrow>
      added s (getDone x st g v True r s) =
        CallCallback x f
          (if isSuccess st then P4PValue v
           else PyRuntimeError (takeWhile (\<lambda>ch. ch \<noteq> CHR 0x00) (getMessage st))) #
        (if r = None then [PyErr_Print, PyErr_Clear] else [])) \<and>
   (CHR 0x00 \<notin> set (getMessage st) \<longrightarrow> takeWhile (\<lambda>ch. ch \<noteq> CHR 0x00) (getMessage st) = getMessage st) \<and>
   (op_cb (getops s x) = None \<longrightarrow> getDone x st g v b r s = s)"
proof -
  have "takeWhile (\<lambda>ch. ch \<noteq> CHR 0x00) m = m" if "CHR 0x00 \<notin> set m" for m :: string
    using that by (induction m) auto
  then show ?thesis
    using getDone_calls [of s x f st g v r] by (simp add: getDone_def c_str_def)
qed

text \<open>On \<open>world_get\<close> operation 0 has its callback; after \<open>cancel()\<close> it has none.\<close>

theorem getDone_built_witness:
  "op_cb (getops world_get 0) = Some (PyCallable 1) \<and>
   added world_get
     (getDone 0 (Status STATUSTYPE_ERROR ''no such field'') 0 (PVStructure []) True (Some Py_None) world_get) =
     [CallCallback 0 (PyCallable 1) (PyRuntimeError ''no such field'')] \<and>
   added world_get
     (getDone 0 (Status STATUSTYPE_OK []) 0 (PVStructure [(''value'', ''1'')]) True (Some Py_None) world_get) =
     [CallCallback 0 (PyCallable 1) (P4PValue (PVStructure [(''value'', ''1'')]))] \<and>
   0 < next_op world_get \<and>
   op_cb (getops (snd (py_cancel 0 world_get)) 0) = None \<and>
   getDone 0 (Status STATUSTYPE_OK []) 0 (PVStructure []) True (Some Py_None) (snd (py_cancel 0 world_get)) =
     snd (py_cancel 0 world_get)"
proof -
  have h: "op_cb (getops world_get 0) = Some (PyCallable 1)"
    by (simp add: world_get_def eval_defs)
  have a: "0 < next_op world_get"
    by (simp add: world_get_def eval_defs)
  have n: "op_cb (getops (snd (py_cancel 0 world_get)) 0) = None"
    by (simp add: world_get_def eval_defs)
  have z: "CHR 0x00 \<notin> set (getMessage (Status STATUSTYPE_ERROR ''no such field''))"
    by simp
  from getDone_built [of world_get 0 "PyCallable 1" "Status STATUSTYPE_ERROR ''no such field''" 0
      "PVStructure []" "Some Py_None"]
    getDone_built [of world_get 0 "PyCallable 1" "Status STATUSTYPE_OK []" 0
      "PVStructure [(''value'', ''1'')]" "Some Py_None"]
    getDone_built [of "snd (py_cancel 0 world_get)" 0 "PyCallable 1" "Status STATUSTYPE_OK []" 0
      "PVStructure []" "Some Py_None" True]
    h a n z
  show ?thesis by simp
qed

section \<open>C6: the Destroyed transition\<close>

text \<open>
  C6.  For an existing operation \<open>x\<close> registered on channel \<open>c\<close> (every registered
  operation exists in a reachable world, \<open>reachable_registered\<close>): the Destroyed
  transition runs \<open>cancel()\<close> on every operation of the snapshot of the set; afterwards
  the set of \<open>c\<close> is empty and \<open>x\<close> has no channel reference, no callback and no
  exchange.  After any further run \<open>es\<close>, \<open>x\<close> is still not in the set and still has
  no channel reference, \<open>restart\<close> of \<open>x\<close> does nothing, and no exchange has been
  created for \<open>x\<close> since before the transition.  (\<open>f\<close>, what \<open>createChannelGet\<close>
  would do, plays no part in this transition.)
\<close>

theorem destroyed_final:
  assumes "x \<in> set (ch_ops (chans s c))" and "x < next_op s"
  shows "(let s' = channelStateChange c DESTROYED f s in
          s' = fold (\<lambda>it. snd \<circ> cancel it) (ch_ops (chans s c)) (set_ops c [] s) \<and>
          ch_ops (chans s' c) = [] \<and>
          cancelled x s' \<and>
          x \<notin> set (ch_ops (chans (run U es s') c)) \<and>
          op_channel (getops (run U es s') x) = None \<and>
          restart x r (run U es s') = (None, run U es s') \<and>
          restarts x (run U es s') = restarts x s)"
proof -
  let ?s' = "channelStateChange c DESTROYED f s"
  have d: "?s' = fold (\<lambda>it. snd \<circ> cancel it) (ch_ops (chans s c)) (set_ops c [] s)"
    by (simp add: channelStateChange_def)
  have e: "ch_ops (chans ?s' c) = []"
    unfolding d by (rule fold_cancel_ops_empty) simp
  have k: "cancelled x ?s'"
    unfolding d using assms(1) by (simp add: fold_cancel_cancelled)
  have "next_op ?s' = next_op s"
    unfolding d by (simp add: fold_cancel_next_op)
  with k assms(2) have u: "unbound x ?s'"
    by (simp add: unbound_def cancelled_def)
  have "restarts x (set_ops c [] s) = restarts x s"
    by (simp add: restarts_def)
  then have r: "restarts x ?s' = restarts x s"
    unfolding d by (simp add: fold_cancel_restarts)
  from run_unbound [OF u, of U es] have ru: "unbound x (run U es ?s')"
    and rr: "restarts x (run U es ?s') = restarts x ?s'" by simp_all
  from ru have n: "op_channel (getops (run U es ?s') x) = None" by (simp add: unbound_def)
  then have g: "restart x r (run U es ?s') = (None, run U es ?s')" by (simp add: restart_def)
  have o: "x \<notin> set (ch_ops (chans (run U es ?s') c))"
    using u e by (intro run_out) simp_all
  from d e k o n g rr r show ?thesis by (simp add: Let_def)
qed

theorem destroyed_final_witness:
  "0 \<in> set (ch_ops (chans world_conn 0)) \<and> 0 < next_op world_conn \<and>
   ch_ops (chans (channelStateChange 0 DESTROYED returns world_conn) 0) = [] \<and>
   cancelled 0 (channelStateChange 0 DESTROYED returns world_conn) \<and>
   0 \<notin> set (ch_ops (chans (run unwrap_example [EvStateChange 0 CONNECTED returns]
       (channelStateChange 0 DESTROYED returns world_conn)) 0)) \<and>
   restarts 0 (run unwrap_example [EvStateChange 0 CONNECTED returns]
       (channelStateChange 0 DESTROYED returns world_conn)) =
     [CreateChannelGet 7 0 (Some (PVStructure []))]"
proof -
  have h1: "0 \<in> set (ch_ops (chans world_conn 0))"
    by (simp add: world_conn_def eval_defs ops_insert_def)
  have h2: "0 < next_op world_conn"
    by (simp add: world_conn_def eval_defs)
  have h3: "restarts 0 world_conn = [CreateChannelGet 7 0 (Some (PVStructure []))]"
    by (simp add: world_conn_def eval_defs)
  note t = destroyed_final [OF h1 h2, where U = unwrap_example and es = "[EvStateChange 0 CONNECTED returns]"
      and f = returns, unfolded Let_def]
  from t have "restarts 0 (run unwrap_example [EvStateChange 0 CONNECTED returns]
       (channelStateChange 0 DESTROYED returns world_conn)) = restarts 0 world_conn"
    by blast
  then have r: "restarts 0 (run unwrap_example [EvStateChange 0 CONNECTED returns]
       (channelStateChange 0 DESTROYED returns world_conn)) = [CreateChannelGet 7 0 (Some (PVStructure []))]"
    by (simp only: h3)
  from t h1 h2 r show ?thesis by blast
qed


section \<open>C7: get with a non-callable, and on a closed channel\<close>




section \<open>C8: the connect-phase notification\<close>

text \<open>
  C8, as stated, fails in its last part: after a connect-phase notification with a status
  that is not a success, the callback does fire.  On \<open>world_conn\<close>, the exchange 0 fails
  to connect; the operation stays registered with its callback, the connection is lost
  and comes back, the operation is restarted with the exchange 1, which connects and
  completes, and the callback is invoked.
\<close>

theorem connect_failure_counterexample:
  "\<not> isSuccess (Status STATUSTYPE_ERROR ''timeout'') \<and>
   callbacks 0 world_conn = [] \<and>
   callbacks 0 (run unwrap_example events_reconnect world_conn) =
     [CallCallback 0 (PyCallable 1) (P4PValue (PVStructure []))]"
  by (simp add: events_reconnect_def world_conn_def eval_defs)

text \<open>
  C8, amended.  On a status that is not a success, \<open>channelGetConnect\<close> writes one log
  line and does nothing else: it issues no data request and changes no object, so the
  operation keeps its registration and its callback.  On a success it issues \<open>get()\<close>
  on the exchange handle it was given.  After a connect-phase notification that is not a
  success, the coordinator issues no data request on that exchange, whatever happens
  next, unless a later connect-phase notification for the same exchange is a success.
\<close>

theorem connect_phase:
  "(\<not> isSuccess st \<longrightarrow> channelGetConnect x st g s = emit (LogError ''channelGetConnect oops'' st) s) \<and>
   (isSuccess st \<longrightarrow> channelGetConnect x st g s = emit (ChannelGetGet g) s) \<and>
   (\<not> isSuccess st \<and> (\<forall>e\<in>set es. \<not> is_connect_ok g e) \<longrightarrow>
      requests g (run U es (channelGetConnect x st g s)) = requests g s)"
proof -
  have "requests g (run U es (channelGetConnect x st g s)) = requests g s"
    if "\<not> isSuccess st" and "\<forall>e\<in>set es. \<not> is_connect_ok g e"
  proof -
    from that(2) have "requests g (run U es (channelGetConnect x st g s)) =
        requests g (channelGetConnect x st g s)"
      by (rule run_requests)
    also from that(1) have "\<dots> = requests g s"
      by (simp add: channelGetConnect_requests)
    finally show ?thesis .
  qed
  then show ?thesis
    by (simp add: channelGetConnect_def)
qed

text \<open>The run of the counterexample after the failed connect: the callback fires, and
  yet no data request is ever issued on the exchange 0.\<close>

theorem connect_phase_witness:
  "\<not> isSuccess (Status STATUSTYPE_ERROR ''timeout'') \<and>
   channelGetConnect 0 (Status STATUSTYPE_ERROR ''timeout'') 0 world_conn =
     emit (LogError ''channelGetConnect oops'' (Status STATUSTYPE_ERROR ''timeout'')) world_conn \<and>
   isSuccess (Status STATUSTYPE_WARNING ''slow'') \<and>
   channelGetConnect 0 (Status STATUSTYPE_WARNING ''slow'') 0 world_conn = emit (ChannelGetGet 0) world_conn \<and>
   requests 0 (run unwrap_example (tl events_reconnect)
       (channelGetConnect 0 (Status STATUSTYPE_ERROR ''timeout'') 0 world_conn)) = [] \<and>
   requests 1 (run unwrap_example (tl events_reconnect)
       (channelGetConnect 0 (Status STATUSTYPE_ERROR ''timeout'') 0 world_conn)) = [ChannelGetGet 1]"
proof -
  have h: "requests 0 world_conn = []"
    by (simp add: world_conn_def eval_defs)
  have e: "\<not> isSuccess (Status STATUSTYPE_ERROR ''timeout'')"
    by simp
  have w: "isSuccess (Status STATUSTYPE_WARNING ''slow'')"
    by simp
  have n: "\<forall>e\<in>set (tl events_reconnect). \<not> is_connect_ok 0 e"
    by (simp add: events_reconnect_def)
  have o: "requests 1 (run unwrap_example (tl events_reconnect)
       (channelGetConnect 0 (Status STATUSTYPE_ERROR ''timeout'') 0 world_conn)) = [ChannelGetGet 1]"
    by (simp add: events_reconnect_def world_conn_def eval_defs)
  note t = connect_phase [of "Status STATUSTYPE_ERROR ''timeout''" 0 0 world_conn
      "tl events_reconnect" unwrap_example]
  note u = connect_phase [of "Status STATUSTYPE_WARNING ''slow''" 0 0 world_conn "[]" unwrap_example]
  from t e n have "requests 0 (run unwrap_example (tl events_reconnect)
       (channelGetConnect 0 (Status STATUSTYPE_ERROR ''timeout'') 0 world_conn)) = requests 0 world_conn"
    by blast
  then have c: "requests 0 (run unwrap_example (tl events_reconnect)
       (channelGetConnect 0 (Status STATUSTYPE_ERROR ''timeout'') 0 world_conn)) = []"
    by (simp only: h)
  from t u e w c o show ?thesis by blast
qed

section \<open>C9: request options\<close>

text \<open>
  C9.  \<open>buildRequest\<close> maps \<open>None\<close> to the empty structure, fails on every string
  with "pvRequest parsing not implemented", and hands every other object to
  \<open>P4PValue_unwrap\<close>, whose result it returns as it is.
\<close>

theorem buildRequest_forms:
  "buildRequest U Py_None = Inr (Some (PVStructure [])) \<and>
   buildRequest U (PyString str) = Inl (RuntimeError ''pvRequest parsing not implemented'') \<and>
   buildRequest U (P4PValue v) = U (P4PValue v) \<and>
   buildRequest U (PyCallable f) = U (PyCallable f) \<and>
   buildRequest U (PyRuntimeError m) = U (PyRuntimeError m) \<and>
   buildRequest U (PyOther n) = U (PyOther n)"
  by (simp add: buildRequest_def)


section \<open>C10: the object for the callback cannot be built\<close>

text \<open>
  C10.  In the completion handler with a callback installed, when the host builds no
  object to pass (the wrapping of the result, or the construction of the error, yields
  null), the callback is not invoked: the handler prints and clears the host error and
  changes nothing else.
\<close>

theorem getDone_unbuilt:
  "op_cb (getops s x) = Some f \<Longrightarrow>
   getDone x st g v False r s = emit PyErr_Clear (emit PyErr_Print s) \<and>
   filter any_callback (added s (getDone x st g v False r s)) = []"
  by (simp add: getDone_def added_def)

theorem getDone_unbuilt_witness:
  "op_cb (getops world_get 0) = Some (PyCallable 1) \<and>
   getDone 0 (Status STATUSTYPE_ERROR ''no such field'') 0 (PVStructure []) False None world_get =
     emit PyErr_Clear (emit PyErr_Print world_get) \<and>
   filter any_callback
     (added world_get (getDone 0 (Status STATUSTYPE_ERROR ''no such field'') 0 (PVStructure []) False None world_get)) = []"
proof -
  have h: "op_cb (getops world_get 0) = Some (PyCallable 1)"
    by (simp add: world_get_def eval_defs)
  from getDone_unbuilt [OF h, of "Status STATUSTYPE_ERROR ''no such field''" 0 "PVStructure []" None] h
  show ?thesis by blast
qed

end
